theory Spec2Isabelle
  imports Main "HOL-Library.Word" "HOL-Library.Signed_Division" "HOL-Library.Char_ord"
    "HOL-Library.List_Lexorder"
begin

unbundle bit_operations_syntax

section \<open>The capture service of \<^verbatim>\<open>game-capture/src/main.cpp\<close>\<close>

text \<open>
  The service finds the game's window, starts a Windows Graphics Capture session on it,
  copies every delivered frame into one shared GPU texture (the \<^verbatim>\<open>FrameArrived\<close>
  callback), and once a second reads that texture back and writes it as a 24-bit BMP
  (the saver thread). The model below is sequential: one callback invocation and one
  saver tick are state transformers on the variables the lambdas capture by reference,
  and everything the platform decides and the code looks at (whether a frame is available,
  whether an allocation or an \<^verbatim>\<open>fopen\<close> succeeds, what the clocks read) is an
  explicit input; so is the room the frame file has for the writes of the encoder, whose
  results the code does not read.
\<close>

subsection \<open>Direct3D resources\<close>

type_synonym byte = "8 word"
type_synonym UINT = "32 word"
type_synonym tex_id = nat

text \<open>
  A \<^verbatim>\<open>ID3D11Texture2D\<close> in B8G8R8A8 format: the two dimensions of its
  \<^verbatim>\<open>D3D11_TEXTURE2D_DESC\<close> and its pixel content, row after row, four bytes
  (B, G, R, A) per pixel. The device is a store of the textures the program created through
  \<^verbatim>\<open>CreateTexture2D\<close>; a \<^verbatim>\<open>ComPtr\<close> is the address of a texture in that store,
  so that two pointers to one texture see each other's writes.
\<close>

record texture =
  tex_w :: UINT
  tex_h :: UINT
  tex_pixels :: "byte list"

record device =
  textures :: "tex_id \<rightharpoonup> texture"
  next_tex :: tex_id

definition D3D11_REQ_TEXTURE2D_U_OR_V_DIMENSION :: nat where
  "D3D11_REQ_TEXTURE2D_U_OR_V_DIMENSION = 16384"

definition valid_dim :: "UINT \<Rightarrow> bool" where
  "valid_dim d \<longleftrightarrow> 1 \<le> unat d \<and> unat d \<le> D3D11_REQ_TEXTURE2D_U_OR_V_DIMENSION"

text \<open>
  \<^verbatim>\<open>ID3D11Device::CreateTexture2D(&desc, nullptr, &newTex)\<close>. Direct3D 11 accepts a
  width and a height from 1 to 16384 texels and rejects the call otherwise; within that
  range the call may still fail (out of memory, device removed), which is the input
  \<open>ok\<close>. No initial data is passed, the content of the new texture is modelled as
  zeroes. The result is the new pointer, or \<open>None\<close> for a failed \<^verbatim>\<open>HRESULT\<close>.
\<close>

definition CreateTexture2D :: "bool \<Rightarrow> UINT \<Rightarrow> UINT \<Rightarrow> device \<Rightarrow> tex_id option \<times> device" where
  "CreateTexture2D ok wd ht d =
     (if ok \<and> valid_dim wd \<and> valid_dim ht
      then (Some (next_tex d),
            d\<lparr>textures := (textures d)(next_tex d \<mapsto>
                 \<lparr>tex_w = wd, tex_h = ht, tex_pixels = replicate (4 * unat wd * unat ht) 0\<rparr>),
              next_tex := Suc (next_tex d)\<rparr>)
      else (None, d))"

text \<open>
  \<^verbatim>\<open>ID3D11DeviceContext::CopyResource(dst, src)\<close> with the source given by value (the
  frame pool owns the frame's surface). The copy replaces the pixel content of the
  destination; Direct3D drops a copy between resources of different dimensions.
\<close>

definition CopyResource :: "tex_id \<Rightarrow> texture \<Rightarrow> device \<Rightarrow> device" where
  "CopyResource dst src d =
     (case textures d dst of
        None \<Rightarrow> d
      | Some t \<Rightarrow>
          if tex_w t = tex_w src \<and> tex_h t = tex_h src
          then d\<lparr>textures := (textures d)(dst \<mapsto> t\<lparr>tex_pixels := tex_pixels src\<rparr>)\<rparr>
          else d)"

subsection \<open>Diagnostics\<close>

text \<open>
  The messages the program passes to \<^verbatim>\<open>log_line\<close> and \<^verbatim>\<open>logf\<close>, with the values
  they print where a property depends on them.
\<close>

datatype log_event =
    Frame_event "64 word"
  | Shared_texture_recreated UINT UINT
  | Capture_stalled_no_events
  | Probe_center
  | Probe_avg10x10
  | Frame_written
  | Frame_saved int UINT UINT "64 word"
  | Open_proc_fail
  | Process_ended_exit_code
  | Process_ended

text \<open>
  What a piece of the program does to the world outside its own variables, in the order
  in which it does it. \<open>File_fwrite p bytes\<close> stands for the calls of \<^verbatim>\<open>fwrite\<close>
  between the opening and the closing of \<open>p\<close>, with all the bytes they pass.
\<close>

datatype effect =
    Pool_TryGetNextFrame
  | Counter_fetch_add
  | Lock_acquire
  | Lock_release
  | Gpu_CreateTexture2D UINT UINT
  | Gpu_CopyResource
  | Gpu_Map
  | Sleep_until
  | Log_fopen
  | Log_fputs log_event
  | Log_fclose
  | OutputDebugString log_event
  | Stderr_fputs log_event
  | File_fopen string
  | File_fwrite string "byte list"
  | File_fclose string
  | File_rename string string
  | File_remove string

text \<open>
  \<^verbatim>\<open>log_line\<close>: open \<^verbatim>\<open>capture.log\<close> for appending, write the line if the file could
  be opened, then mirror the line to the debugger and to \<^verbatim>\<open>stderr\<close>. \<^verbatim>\<open>logf\<close> formats
  and calls \<^verbatim>\<open>log_line\<close>. The input \<open>ok\<close> is whether \<^verbatim>\<open>fopen\<close> succeeds.
\<close>

definition log_line :: "bool \<Rightarrow> log_event \<Rightarrow> effect list" where
  "log_line ok ev =
     Log_fopen # (if ok then [Log_fputs ev, Log_fclose] else []) @
     [OutputDebugString ev, Stderr_fputs ev]"

definition logf :: "bool \<Rightarrow> log_event \<Rightarrow> effect list" where
  "logf ok ev = log_line ok ev"


text \<open>The effects of writing one line to the log, whatever the line.\<close>

definition log_effect :: "effect \<Rightarrow> bool" where
  "log_effect e =
     (case e of
        Log_fopen \<Rightarrow> True | Log_fputs _ \<Rightarrow> True | Log_fclose \<Rightarrow> True
      | OutputDebugString _ \<Rightarrow> True | Stderr_fputs _ \<Rightarrow> True
      | _ \<Rightarrow> False)"

subsection \<open>The variables of one session\<close>

text \<open>
  \<^verbatim>\<open>struct SharedFrame { std::mutex m; ComPtr<ID3D11Texture2D> tex; UINT w = 0; UINT h = 0; }\<close>.
  The mutex is not a field: the model runs each critical section as one step.
\<close>

record SharedFrame =
  sf_tex :: "tex_id option"
  sf_w :: UINT
  sf_h :: UINT

text \<open>
  The locals of \<^verbatim>\<open>main\<close> that the two lambdas capture: \<^verbatim>\<open>running\<close>,
  \<^verbatim>\<open>frameEvents\<close>, \<^verbatim>\<open>shared\<close> and the device; the saver's own \<^verbatim>\<open>saverRun\<close> and
  \<^verbatim>\<open>saveIdx\<close>; the function-local static \<^verbatim>\<open>loggedProbe\<close> of
  \<^verbatim>\<open>save_staging_to_file\<close>; and the files of the frames directory, by path.
\<close>

record session =
  running :: bool
  frameEvents :: "64 word"
  shared :: SharedFrame
  d3d :: device
  saverRun :: bool
  saveIdx :: int
  loggedProbe :: bool
  files :: "string \<rightharpoonup> byte list"

text \<open>
  The state in which \<^verbatim>\<open>main\<close> leaves these variables when it has started a session:
  the device, the static and the directory are what the process has at that moment.
\<close>

definition session_start :: "device \<Rightarrow> bool \<Rightarrow> (string \<rightharpoonup> byte list) \<Rightarrow> session" where
  "session_start d probed fs =
     \<lparr>running = True, frameEvents = 0,
      shared = \<lparr>sf_tex = None, sf_w = 0, sf_h = 0\<rparr>,
      d3d = d, saverRun = True, saveIdx = 0, loggedProbe = probed, files = fs\<rparr>"

subsection \<open>The frame ingest callback\<close>

text \<open>
  What the platform answers during one invocation of the \<^verbatim>\<open>FrameArrived\<close> lambda:
  the frame \<^verbatim>\<open>TryGetNextFrame\<close> returns (\<open>None\<close> for a null frame), whether the two
  interface queries succeed, whether the texture allocation succeeds, and whether the log
  file can be opened.
\<close>

record frame_env =
  next_frame :: "texture option"
  query_interface_ok :: bool
  get_interface_ok :: bool
  create_ok :: bool
  cb_log_ok :: bool

text \<open>
  The block under \<^verbatim>\<open>std::lock_guard<std::mutex> lock(shared.m)\<close>: the update of the
  shared frame buffer.
\<close>

definition update :: "frame_env \<Rightarrow> texture \<Rightarrow> session \<Rightarrow> effect list \<times> session" where
  "update env src s =
     (let sh = shared s in
      if sf_tex sh = None \<or> sf_w sh \<noteq> tex_w src \<or> sf_h sh \<noteq> tex_h src
      then
        (case CreateTexture2D (create_ok env) (tex_w src) (tex_h src) (d3d s) of
           (Some newTex, d') \<Rightarrow>
             ([Lock_acquire, Gpu_CreateTexture2D (tex_w src) (tex_h src)] @
              logf (cb_log_ok env) (Shared_texture_recreated (tex_w src) (tex_h src)) @
              [Gpu_CopyResource, Lock_release],
              s\<lparr>shared := \<lparr>sf_tex = Some newTex, sf_w = tex_w src, sf_h = tex_h src\<rparr>,
                d3d := CopyResource newTex src d'\<rparr>)
         | (None, d') \<Rightarrow>
             ([Lock_acquire, Gpu_CreateTexture2D (tex_w src) (tex_h src), Lock_release], s))
      else
        (case sf_tex sh of
           Some t \<Rightarrow>
             ([Lock_acquire, Gpu_CopyResource, Lock_release],
              s\<lparr>d3d := CopyResource t src (d3d s)\<rparr>)
         | None \<Rightarrow> ([Lock_acquire, Lock_release], s)))"

definition FrameArrived :: "frame_env \<Rightarrow> session \<Rightarrow> effect list \<times> session" where
  "FrameArrived env s =
     (if \<not> running s then ([], s)
      else
        (case next_frame env of
           None \<Rightarrow> ([Pool_TryGetNextFrame], s)
         | Some src \<Rightarrow>
             (let s1 = s\<lparr>frameEvents := frameEvents s + 1\<rparr>;
                  e1 = [Pool_TryGetNextFrame, Counter_fetch_add] @
                       logf (cb_log_ok env) (Frame_event (frameEvents s1))
              in if \<not> query_interface_ok env then (e1, s1)
                 else if \<not> get_interface_ok env then (e1, s1)
                 else (case update env src s1 of (e2, s2) \<Rightarrow> (e1 @ e2, s2)))))"

subsection \<open>The BMP encoder\<close>

text \<open>
  What can go wrong inside a function without the function returning: undefined behaviour
  of C++ (overflow of a signed \<^verbatim>\<open>int\<close>, an access outside a buffer) and the exception
  \<^verbatim>\<open>std::vector\<close> throws for an impossible size.
\<close>

datatype error = Undefined_behaviour | Length_error

definition in_int :: "int \<Rightarrow> bool" where
  "in_int x \<longleftrightarrow> - (2 ^ 31) \<le> x \<and> x < 2 ^ 31"

text \<open>
  \<^verbatim>\<open>buf[i]\<close> on a vector with an \<^verbatim>\<open>int\<close> index, and \<^verbatim>\<open>src[i]\<close> where
  \<^verbatim>\<open>src\<close> points at offset \<open>off\<close> into the buffer: the index is a C \<^verbatim>\<open>int\<close>,
  the address is pointer arithmetic and only has to stay inside the buffer.
\<close>

definition idx_ok :: "'a list \<Rightarrow> int \<Rightarrow> bool" where
  "idx_ok buf i \<longleftrightarrow> in_int i \<and> 0 \<le> i \<and> i < int (length buf)"

definition src_ok :: "'a list \<Rightarrow> int \<Rightarrow> int \<Rightarrow> bool" where
  "src_ok buf off i \<longleftrightarrow> in_int i \<and> 0 \<le> off + i \<and> off + i < int (length buf)"

text \<open>
  Modelled from the spec: the structures \<^verbatim>\<open>BITMAPFILEHEADER\<close> and
  \<^verbatim>\<open>BITMAPINFOHEADER\<close> and the constant \<^verbatim>\<open>BI_RGB\<close> come from
  \<^verbatim>\<open>wingdi.h\<close>, which is not part of the repository. The output is an
  "uncompressed 24-bit-per-pixel bitmap": the fields, their widths and their little-endian
  layout (14 and 40 bytes, packed) are those of the Windows BMP format, and
  \<^verbatim>\<open>BI_RGB\<close> is 0.
\<close>

record BITMAPFILEHEADER =
  bfType :: "16 word"
  bfSize :: "32 word"
  bfReserved1 :: "16 word"
  bfReserved2 :: "16 word"
  bfOffBits :: "32 word"

record BITMAPINFOHEADER =
  biSize :: "32 word"
  biWidth :: "32 word"
  biHeight :: "32 word"
  biPlanes :: "16 word"
  biBitCount :: "16 word"
  biCompression :: "32 word"
  biSizeImage :: "32 word"
  biXPelsPerMeter :: "32 word"
  biYPelsPerMeter :: "32 word"
  biClrUsed :: "32 word"
  biClrImportant :: "32 word"

definition BI_RGB :: "32 word" where
  "BI_RGB = 0"

definition le16 :: "16 word \<Rightarrow> byte list" where
  "le16 x = [ucast x, ucast (drop_bit 8 x)]"

definition le32 :: "32 word \<Rightarrow> byte list" where
  "le32 x = [ucast x, ucast (drop_bit 8 x), ucast (drop_bit 16 x), ucast (drop_bit 24 x)]"

definition fh_bytes :: "BITMAPFILEHEADER \<Rightarrow> byte list" where
  "fh_bytes fh =
     le16 (bfType fh) @ le32 (bfSize fh) @ le16 (bfReserved1 fh) @ le16 (bfReserved2 fh) @
     le32 (bfOffBits fh)"

definition ih_bytes :: "BITMAPINFOHEADER \<Rightarrow> byte list" where
  "ih_bytes ih =
     le32 (biSize ih) @ le32 (biWidth ih) @ le32 (biHeight ih) @ le16 (biPlanes ih) @
     le16 (biBitCount ih) @ le32 (biCompression ih) @ le32 (biSizeImage ih) @
     le32 (biXPelsPerMeter ih) @ le32 (biYPelsPerMeter ih) @ le32 (biClrUsed ih) @
     le32 (biClrImportant ih)"

text \<open>
  The arithmetic at the head of \<^verbatim>\<open>BmpWriter::write\<close>, on C \<^verbatim>\<open>int\<close>s. \<^verbatim>\<open>%\<close>
  truncates towards zero (\<open>smod\<close>), \<^verbatim>\<open>&\<close> is the two's-complement conjunction.
\<close>

definition bmp_stride :: "int \<Rightarrow> int" where
  "bmp_stride w = w * 3"

definition bmp_pad :: "int \<Rightarrow> int" where
  "bmp_pad w = (4 - (bmp_stride w smod 4)) AND 3"

definition bmp_dataSize :: "int \<Rightarrow> int \<Rightarrow> int" where
  "bmp_dataSize w h = (bmp_stride w + bmp_pad w) * h"

definition bmp_info_header :: "int \<Rightarrow> int \<Rightarrow> BITMAPINFOHEADER" where
  "bmp_info_header w h =
     \<lparr>biSize = 40, biWidth = word_of_int w, biHeight = word_of_int (- h), biPlanes = 1,
      biBitCount = 24, biCompression = BI_RGB, biSizeImage = 0, biXPelsPerMeter = 0,
      biYPelsPerMeter = 0, biClrUsed = 0, biClrImportant = 0\<rparr>"

definition bmp_file_header :: "int \<Rightarrow> int \<Rightarrow> BITMAPFILEHEADER" where
  "bmp_file_header w h =
     \<lparr>bfType = 0x4D42, bfSize = (14 + 40) + word_of_int (bmp_dataSize w h),
      bfReserved1 = 0, bfReserved2 = 0, bfOffBits = 14 + 40\<rparr>"

text \<open>
  The inner loop \<^verbatim>\<open>for (int x = 0; x < w; ++x)\<close>: three reads from the source row at
  \<open>off\<close> and three stores into the row buffer, which the function reuses for every row.
\<close>

function row_loop :: "byte list \<Rightarrow> int \<Rightarrow> int \<Rightarrow> int \<Rightarrow> byte list \<Rightarrow> error + byte list" where
  "row_loop bgra off w x row =
     (if x < w then
        (if src_ok bgra off (x * 4 + 0) \<and> src_ok bgra off (x * 4 + 1) \<and>
            src_ok bgra off (x * 4 + 2) \<and>
            idx_ok row (x * 3 + 0) \<and> idx_ok row (x * 3 + 1) \<and> idx_ok row (x * 3 + 2)
         then row_loop bgra off w (x + 1)
                (row[nat (x * 3 + 0) := bgra ! nat (off + (x * 4 + 0)),
                     nat (x * 3 + 1) := bgra ! nat (off + (x * 4 + 1)),
                     nat (x * 3 + 2) := bgra ! nat (off + (x * 4 + 2))])
         else Inl Undefined_behaviour)
      else Inr row)"
  by pat_completeness auto
termination
  by (relation "measure (\<lambda>(bgra, off, w, x, row). nat (w - x))") auto

text \<open>
  \<^verbatim>\<open>memset(row.data() + stride, 0, pad)\<close>: undefined when the \<open>pad\<close> bytes from
  \<open>stride\<close> on do not lie inside the row buffer.
\<close>

definition memset_row :: "byte list \<Rightarrow> int \<Rightarrow> int \<Rightarrow> error + byte list" where
  "memset_row row stride pad =
     (if 0 \<le> stride \<and> 0 \<le> pad \<and> stride + pad \<le> int (length row)
      then Inr (take (nat stride) row @ replicate (nat pad) 0 @
                drop (nat stride + nat pad) row)
      else Inl Undefined_behaviour)"

text \<open>
  The outer loop \<^verbatim>\<open>for (int y = 0; y < h; ++y)\<close>; \<open>out\<close> is what has been written to
  the file so far, and every \<^verbatim>\<open>fwrite(row.data(), 1, stride + pad, f)\<close> appends to it.
\<close>

function write_rows ::
  "byte list \<Rightarrow> int \<Rightarrow> int \<Rightarrow> int \<Rightarrow> byte list \<Rightarrow> byte list \<Rightarrow> error + byte list" where
  "write_rows bgra w h y row out =
     (if y < h then
        (if \<not> (in_int (y * w) \<and> in_int (y * w * 4)) then Inl Undefined_behaviour
         else
           (case row_loop bgra (y * w * 4) w 0 row of
              Inl e \<Rightarrow> Inl e
            | Inr row1 \<Rightarrow>
                (case (if bmp_pad w \<noteq> 0 then memset_row row1 (bmp_stride w) (bmp_pad w)
                       else Inr row1) of
                   Inl e \<Rightarrow> Inl e
                 | Inr row2 \<Rightarrow>
                     write_rows bgra w h (y + 1) row2
                       (out @ take (nat (bmp_stride w + bmp_pad w)) row2))))
      else Inr out)"
  by pat_completeness auto
termination
  by (relation "measure (\<lambda>(bgra, w, h, y, row, out). nat (h - y))") auto

text \<open>
  What a call of \<^verbatim>\<open>BmpWriter::write\<close> that returns \<^verbatim>\<open>true\<close> has done: the bytes
  it has passed to \<^verbatim>\<open>fwrite\<close>, call after call, and the content of the file after
  \<^verbatim>\<open>fclose\<close>. The two differ when a write fails: the input \<open>room\<close> is the number
  of bytes the file takes before the writes fail (a full disk), \<open>None\<close> when every
  write succeeds.
\<close>

record file_written =
  to_fwrite :: "byte list"
  on_disk :: "byte list"

definition file_takes :: "nat option \<Rightarrow> byte list \<Rightarrow> byte list" where
  "file_takes room bytes = (case room of None \<Rightarrow> bytes | Some n \<Rightarrow> take n bytes)"

text \<open>
  \<^verbatim>\<open>BmpWriter::write(p, bgra, w, h)\<close>. \<open>Inr None\<close> is the return value \<^verbatim>\<open>false\<close>
  (the file could not be opened, input \<open>fopen_ok\<close>); \<open>Inr (Some f)\<close> is
  \<^verbatim>\<open>true\<close>. The code does not read the results of \<^verbatim>\<open>fwrite\<close> and
  \<^verbatim>\<open>fclose\<close>, so it returns \<^verbatim>\<open>true\<close> also when the file has taken only a part of
  the bytes.
\<close>

definition BmpWriter_write ::
  "bool \<Rightarrow> nat option \<Rightarrow> byte list \<Rightarrow> int \<Rightarrow> int \<Rightarrow> error + file_written option" where
  "BmpWriter_write fopen_ok room bgra w h =
     (if \<not> (in_int (- h) \<and> in_int (bmp_stride w) \<and> in_int (4 - (bmp_stride w smod 4)) \<and>
             in_int (bmp_stride w + bmp_pad w) \<and> in_int (bmp_dataSize w h))
      then Inl Undefined_behaviour
      else if \<not> fopen_ok then Inr None
      else if bmp_stride w + bmp_pad w < 0 then Inl Length_error
      else
        (case write_rows bgra w h 0 (replicate (nat (bmp_stride w + bmp_pad w)) 0)
                (fh_bytes (bmp_file_header w h) @ ih_bytes (bmp_info_header w h)) of
           Inl e \<Rightarrow> Inl e
         | Inr bytes \<Rightarrow>
             Inr (Some \<lparr>to_fwrite = bytes, on_disk = file_takes room bytes\<rparr>)))"

subsection \<open>File names\<close>

text \<open>
  \<^verbatim>\<open>swprintf\<close> with \<^verbatim>\<open>%0Nd\<close>: the decimal digits of the value, padded with zeroes on
  the left to at least \<open>N\<close> characters, the sign of a negative value counting as one of
  them. A value with more digits is printed in full.
\<close>

definition digit_char :: "nat \<Rightarrow> char" where
  "digit_char d = char_of (48 + d)"

function digits :: "nat \<Rightarrow> string" where
  "digits n = (if n < 10 then [digit_char n] else digits (n div 10) @ [digit_char (n mod 10)])"
  by pat_completeness auto
termination
  by (relation "measure id") auto

definition fmt_0d :: "nat \<Rightarrow> int \<Rightarrow> string" where
  "fmt_0d width v =
     (if v < 0
      then CHR ''-'' # replicate (width - 1 - length (digits (nat (- v)))) CHR ''0'' @
           digits (nat (- v))
      else replicate (width - length (digits (nat v))) CHR ''0'' @ digits (nat v))"

text \<open>
  The fields of \<^verbatim>\<open>struct tm\<close> that \<^verbatim>\<open>gmtime_s\<close> fills in and the name uses, and the
  millisecond part of the wall-clock reading of \<^verbatim>\<open>std::chrono::system_clock\<close>.
\<close>

record wall_clock =
  tm_year :: int
  tm_mon :: int
  tm_mday :: int
  tm_hour :: int
  tm_min :: int
  tm_sec :: int
  msPart :: int

text \<open>The format \<^verbatim>\<open>L"%04d-%02d-%02dT%02d-%02d-%02d.%03lldZ_%05d.bmp"\<close>.\<close>

definition frame_name :: "wall_clock \<Rightarrow> int \<Rightarrow> string" where
  "frame_name now idx =
     fmt_0d 4 (tm_year now + 1900) @ ''-'' @ fmt_0d 2 (tm_mon now + 1) @ ''-'' @
     fmt_0d 2 (tm_mday now) @ ''T'' @ fmt_0d 2 (tm_hour now) @ ''-'' @
     fmt_0d 2 (tm_min now) @ ''-'' @ fmt_0d 2 (tm_sec now) @ ''.'' @
     fmt_0d 3 (msPart now) @ ''Z_'' @ fmt_0d 5 idx @ ''.bmp''"

text \<open>\<^verbatim>\<open>baseDir / name\<close> of \<^verbatim>\<open>std::filesystem::path\<close>, with the separator of Windows.\<close>

definition path_append :: "string \<Rightarrow> string \<Rightarrow> string" where
  "path_append dir name = dir @ [CHR 0x5C] @ name"

text \<open>
  \<^verbatim>\<open>saveIdx++\<close> on a C \<^verbatim>\<open>int\<close>, with the wrap-around of the two's complement that
  the compiler of the service produces.
\<close>

definition int_incr :: "int \<Rightarrow> int" where
  "int_incr i = (i + 1 + 2 ^ 31) mod 2 ^ 32 - 2 ^ 31"

subsection \<open>Reading back and saving a texture\<close>

text \<open>
  What the platform answers during one run of \<^verbatim>\<open>save_staging_to_file\<close>: whether the
  staging texture can be created and mapped, the row pitch of the mapping, whether the
  temporary file can be opened, how many bytes it takes before a write fails (\<open>None\<close>
  when none does), and whether the two renames and the removal succeed.
\<close>

record save_env =
  staging_ok :: bool
  map_ok :: bool
  RowPitch :: nat
  fopen_ok :: bool
  room :: "nat option"
  rename_ok :: bool
  remove_ok :: bool
  rename2_ok :: bool
  sv_log_ok :: bool

text \<open>
  \<^verbatim>\<open>ID3D11DeviceContext::Map\<close> of a staging texture for reading: the rows of the texture,
  row \<open>y\<close> at \<^verbatim>\<open>pData + y * RowPitch\<close>, each followed by the filling up to the pitch.
\<close>

definition Map_rows :: "nat \<Rightarrow> texture \<Rightarrow> byte list list" where
  "Map_rows pitch t =
     map (\<lambda>y. take (4 * unat (tex_w t)) (drop (y * (4 * unat (tex_w t))) (tex_pixels t)) @
               replicate (pitch - 4 * unat (tex_w t)) 0)
         [0..<unat (tex_h t)]"

text \<open>
  The loop \<^verbatim>\<open>for (UINT y = 0; y < desc.Height; ++y) memcpy(&bgra[y * desc.Width * 4], rowSrc, desc.Width * 4)\<close>
  over the mapped rows.
\<close>

definition copy_rows :: "UINT \<Rightarrow> UINT \<Rightarrow> byte list list \<Rightarrow> byte list" where
  "copy_rows wd ht rows = concat (map (\<lambda>y. take (4 * unat wd) (rows ! y)) [0..<unat ht])"

text \<open>
  The three operations of \<^verbatim>\<open>std::filesystem\<close> and \<^verbatim>\<open>stdio\<close> on the frames directory.
  A rename moves the content to the new name, replacing what is there, when the platform
  lets it succeed.
\<close>

definition fs_write :: "string \<Rightarrow> byte list \<Rightarrow> (string \<rightharpoonup> byte list) \<Rightarrow> (string \<rightharpoonup> byte list)" where
  "fs_write p bytes fs = fs(p \<mapsto> bytes)"

definition fs_rename ::
  "bool \<Rightarrow> string \<Rightarrow> string \<Rightarrow> (string \<rightharpoonup> byte list) \<Rightarrow> bool \<times> (string \<rightharpoonup> byte list)" where
  "fs_rename ok src dst fs =
     (case fs src of
        Some bytes \<Rightarrow> if ok then (True, (fs(src := None))(dst \<mapsto> bytes)) else (False, fs)
      | None \<Rightarrow> (False, fs))"

definition fs_remove :: "bool \<Rightarrow> string \<Rightarrow> (string \<rightharpoonup> byte list) \<Rightarrow> (string \<rightharpoonup> byte list)" where
  "fs_remove ok p fs = (if ok then fs(p := None) else fs)"

text \<open>
  The part of \<^verbatim>\<open>save_staging_to_file\<close> from \<^verbatim>\<open>auto tmp = outPath; tmp += L".pending"\<close>
  on, after the probe: write the temporary file, rename it, and on a failed rename remove
  the destination and rename once more. The error code of the second rename is not read.
\<close>

definition write_and_rename ::
  "save_env \<Rightarrow> byte list \<Rightarrow> UINT \<Rightarrow> UINT \<Rightarrow> string \<Rightarrow> session \<Rightarrow> error + effect list \<times> session" where
  "write_and_rename env bgra wd ht outPath s =
     (let tmp = outPath @ ''.pending'' in
      case BmpWriter_write (fopen_ok env) (room env) bgra (sint wd) (sint ht) of
        Inl e \<Rightarrow> Inl e
      | Inr None \<Rightarrow> Inr ([File_fopen tmp], s)
      | Inr (Some f) \<Rightarrow>
          (let fs1 = fs_write tmp (on_disk f) (files s);
               e1 = [File_fopen tmp, File_fwrite tmp (to_fwrite f), File_fclose tmp]
           in case fs_rename (rename_ok env) tmp outPath fs1 of
                (True, fs2) \<Rightarrow>
                  Inr (e1 @ [File_rename tmp outPath] @ log_line (sv_log_ok env) Frame_written,
                       s\<lparr>files := fs2\<rparr>)
              | (False, fs2) \<Rightarrow>
                  (let fs3 = fs_remove (remove_ok env) outPath fs2;
                       fs4 = snd (fs_rename (rename2_ok env) tmp outPath fs3)
                   in Inr (e1 @ [File_rename tmp outPath, File_remove outPath,
                                 File_rename tmp outPath] @
                           log_line (sv_log_ok env) Frame_written,
                           s\<lparr>files := fs4\<rparr>))))"

text \<open>
  The probe that \<^verbatim>\<open>save_staging_to_file\<close> logs on its first run: the centre pixel lies
  inside a texture that has a pixel at all, and then the 10 by 10 neighbourhood counts at
  least that pixel, so both lines are logged.
\<close>

definition probe :: "bool \<Rightarrow> UINT \<Rightarrow> UINT \<Rightarrow> effect list" where
  "probe ok wd ht =
     (if drop_bit 1 wd < wd \<and> drop_bit 1 ht < ht
      then logf ok Probe_center @ logf ok Probe_avg10x10
      else [])"

text \<open>
  \<^verbatim>\<open>save_staging_to_file(dev, ctx, src, outPath)\<close>: create a staging texture of the
  dimensions of \<open>src\<close>, copy \<open>src\<close> into it, map it, copy its rows to host memory, and
  hand them to the writer. A failed creation or mapping returns without a trace.
\<close>

definition save_staging_to_file ::
  "save_env \<Rightarrow> tex_id \<Rightarrow> string \<Rightarrow> session \<Rightarrow> error + effect list \<times> session" where
  "save_staging_to_file env src outPath s =
     (case textures (d3d s) src of
        None \<Rightarrow> Inl Undefined_behaviour
      | Some t \<Rightarrow>
          (case CreateTexture2D (staging_ok env) (tex_w t) (tex_h t) (d3d s) of
             (None, d1) \<Rightarrow> Inr ([Gpu_CreateTexture2D (tex_w t) (tex_h t)], s)
           | (Some staging, d1) \<Rightarrow>
               (let d2 = CopyResource staging t d1;
                    s2 = s\<lparr>d3d := d2\<rparr>;
                    e2 = [Gpu_CreateTexture2D (tex_w t) (tex_h t), Gpu_CopyResource, Gpu_Map]
                in if \<not> map_ok env then Inr (e2, s2)
                   else
                     (case textures d2 staging of
                        None \<Rightarrow> Inl Undefined_behaviour
                      | Some st \<Rightarrow>
                          (let bgra = copy_rows (tex_w t) (tex_h t) (Map_rows (RowPitch env) st);
                               e3 = (if loggedProbe s2 then []
                                     else probe (sv_log_ok env) (tex_w t) (tex_h t));
                               s3 = s2\<lparr>loggedProbe := True\<rparr>
                           in case write_and_rename env bgra (tex_w t) (tex_h t) outPath s3 of
                                Inl e \<Rightarrow> Inl e
                              | Inr (e4, s4) \<Rightarrow> Inr (e2 @ e3 @ e4, s4))))))"

subsection \<open>The periodic saver\<close>

text \<open>
  What one pass of the saver's loop reads from the clocks, besides what the save reads:
  the milliseconds since \<^verbatim>\<open>sessionStart\<close> on the steady clock and the wall-clock time.
\<close>

record tick_env =
  elapsed_ms :: int
  now :: wall_clock
  save :: save_env

datatype tick_outcome = Loop_end | Break | Continue | Saved

text \<open>
  The block under the lock in the saver: \<^verbatim>\<open>if (!shared.tex) continue; texCopy = shared.tex; w = shared.w; h = shared.h;\<close>,
  the snapshot of the shared frame buffer.
\<close>

definition snapshot :: "session \<Rightarrow> (tex_id \<times> UINT \<times> UINT) option" where
  "snapshot s =
     (case sf_tex (shared s) of
        None \<Rightarrow> None
      | Some t \<Rightarrow> Some (t, sf_w (shared s), sf_h (shared s)))"

text \<open>
  One pass of \<^verbatim>\<open>while (saverRun.load())\<close> in the saver lambda, the sleep until the next
  second included; \<open>baseDir\<close> is the frames directory.
\<close>

definition saver_tick ::
  "string \<Rightarrow> tick_env \<Rightarrow> session \<Rightarrow> error + tick_outcome \<times> effect list \<times> session" where
  "saver_tick baseDir env s =
     (if \<not> saverRun s then Inr (Loop_end, [], s)
      else if \<not> running s then Inr (Break, [Sleep_until], s)
      else
        (let e0 = Sleep_until #
                  (if frameEvents s = 0 \<and> elapsed_ms env > 2000
                   then log_line (sv_log_ok (save env)) Capture_stalled_no_events else [])
         in case snapshot s of
              None \<Rightarrow> Inr (Continue, e0 @ [Lock_acquire, Lock_release], s)
            | Some (texCopy, wd, ht) \<Rightarrow>
                (let name = frame_name (now env) (saveIdx s);
                     s1 = s\<lparr>saveIdx := int_incr (saveIdx s)\<rparr>
                 in case save_staging_to_file (save env) texCopy (path_append baseDir name) s1 of
                      Inl e \<Rightarrow> Inl e
                    | Inr (e1, s2) \<Rightarrow>
                        Inr (Saved,
                             e0 @ [Lock_acquire, Lock_release] @ e1 @
                             logf (sv_log_ok (save env))
                               (Frame_saved (saveIdx s2 - 1) wd ht (frameEvents s2)),
                             s2))))"

subsection \<open>A session as a sequence of callbacks and ticks\<close>

datatype event = Frame frame_env | Tick tick_env

fun step :: "string \<Rightarrow> event \<Rightarrow> session \<Rightarrow> error + effect list \<times> session" where
  "step baseDir (Frame env) s = Inr (FrameArrived env s)"
| "step baseDir (Tick env) s =
     (case saver_tick baseDir env s of Inl e \<Rightarrow> Inl e | Inr (out, es, s') \<Rightarrow> Inr (es, s'))"

fun run :: "string \<Rightarrow> event list \<Rightarrow> session \<Rightarrow> error + effect list \<times> session" where
  "run baseDir [] s = Inr ([], s)"
| "run baseDir (ev # evs) s =
     (case step baseDir ev s of
        Inl e \<Rightarrow> Inl e
      | Inr (es, s1) \<Rightarrow>
          (case run baseDir evs s1 of Inl e \<Rightarrow> Inl e | Inr (es', s2) \<Rightarrow> Inr (es @ es', s2)))"

subsection \<open>Monitoring and teardown in \<^verbatim>\<open>main\<close>\<close>

text \<open>
  The rest of one pass of \<^verbatim>\<open>while (true)\<close> in \<^verbatim>\<open>main\<close>, from the construction of
  the saver thread on. The supervisor's own view of the session is the two flags, whether
  the \<^verbatim>\<open>std::thread\<close> object is joinable, and the calls it has made so far.
\<close>

datatype wait_result = WAIT_OBJECT_0 | WAIT_TIMEOUT | WAIT_ABANDONED | WAIT_FAILED

datatype action =
    OpenProcess
  | Log log_event
  | FrameArrived_revoke
  | FramePool_Close
  | Session_Close
  | WaitForSingleObject
  | GetExitCodeProcess
  | Sleep_for_ms nat
  | CloseHandle
  | Store_running_false
  | Store_saverRun_false
  | Saver_join
  | Std_terminate

record supervisor =
  sv_running :: bool
  sv_saverRun :: bool
  saver_joinable :: bool
  trace :: "action list"

datatype pass_end = Next_pass | Process_terminated

definition act :: "action \<Rightarrow> supervisor \<Rightarrow> supervisor" where
  "act a st = st\<lparr>trace := trace st @ [a]\<rparr>"

text \<open>The state right after \<^verbatim>\<open>std::thread saver(...)\<close>.\<close>

definition saver_spawned :: supervisor where
  "saver_spawned = \<lparr>sv_running = True, sv_saverRun = True, saver_joinable = True, trace = []\<rparr>"

text \<open>
  The inner \<^verbatim>\<open>while (true)\<close> around \<^verbatim>\<open>WaitForSingleObject(hProc, 500)\<close>: it goes on
  for as long as the wait times out. The answers of the successive waits are the input; a
  list of time-outs only is a loop that has not returned, \<open>None\<close>.
\<close>

fun wait_loop :: "wait_result list \<Rightarrow> supervisor \<Rightarrow> supervisor option" where
  "wait_loop [] st = None"
| "wait_loop (r # rs) st =
     (if r = WAIT_TIMEOUT then wait_loop rs (act WaitForSingleObject st)
      else Some (act GetExitCodeProcess (act WaitForSingleObject st)))"

text \<open>
  The grace period: \<^verbatim>\<open>sleep_for(50ms)\<close> until 750 ms have passed on the steady clock;
  the number of sleeps this takes is the input \<open>n\<close>.
\<close>

fun grace_period :: "nat \<Rightarrow> supervisor \<Rightarrow> supervisor" where
  "grace_period 0 st = st"
| "grace_period (Suc n) st = grace_period n (act (Sleep_for_ms 50) st)"

text \<open>\<^verbatim>\<open>if (saver.joinable()) saver.join();\<close>\<close>

definition join_saver :: "supervisor \<Rightarrow> supervisor" where
  "join_saver st = (if saver_joinable st then (act Saver_join st)\<lparr>saver_joinable := False\<rparr> else st)"

text \<open>
  The end of the loop body, reached by \<^verbatim>\<open>continue\<close> or by falling through: the locals
  are destroyed, and the destructor of a \<^verbatim>\<open>std::thread\<close> that is still joinable calls
  \<^verbatim>\<open>std::terminate\<close>.
\<close>

definition end_of_pass :: "supervisor \<Rightarrow> pass_end \<times> supervisor" where
  "end_of_pass st =
     (if saver_joinable st then (Process_terminated, act Std_terminate st) else (Next_pass, st))"

definition teardown :: "supervisor \<Rightarrow> supervisor" where
  "teardown st =
     act (Log Process_ended_exit_code)
       (join_saver
         ((act Store_saverRun_false
           (act FramePool_Close
             (act Session_Close
               (act FrameArrived_revoke
                 ((act Store_running_false (act CloseHandle st))\<lparr>sv_running := False\<rparr>)))))
          \<lparr>sv_saverRun := False\<rparr>))"

text \<open>
  \<open>open_ok\<close> is whether \<^verbatim>\<open>OpenProcess(SYNCHRONIZE, FALSE, pid)\<close> returns a handle.
\<close>

definition monitor_session ::
  "bool \<Rightarrow> wait_result list \<Rightarrow> nat \<Rightarrow> supervisor \<Rightarrow> (pass_end \<times> supervisor) option" where
  "monitor_session open_ok waits n st =
     (if \<not> open_ok
      then Some (end_of_pass
                  (act Session_Close
                    (act FramePool_Close
                      (act FrameArrived_revoke
                        (act (Log Open_proc_fail) (act OpenProcess st))))))
      else
        (case wait_loop waits (act OpenProcess st) of
           None \<Rightarrow> None
         | Some st1 \<Rightarrow> Some (end_of_pass (teardown (grace_period n st1)))))"

text \<open>
  Where the first \<open>a\<close> of a trace comes before some \<open>b\<close>.
\<close>

definition precedes :: "'a \<Rightarrow> 'a \<Rightarrow> 'a list \<Rightarrow> bool" where
  "precedes a b tr \<longleftrightarrow> a \<in> set tr \<and> b \<in> set (drop 1 (dropWhile (\<lambda>x. x \<noteq> a) tr))"

subsection \<open>The invariant of the shared frame buffer\<close>

text \<open>
  Either there is no texture yet and the two dimensions are still 0, or the pointer is to a
  texture of the device that has the stored dimensions, both positive.
\<close>

definition shared_inv :: "session \<Rightarrow> bool" where
  "shared_inv s =
     (case sf_tex (shared s) of
        None \<Rightarrow> sf_w (shared s) = 0 \<and> sf_h (shared s) = 0
      | Some t \<Rightarrow>
          t < next_tex (d3d s) \<and>
          (case textures (d3d s) t of
             None \<Rightarrow> False
           | Some tx \<Rightarrow>
               tex_w tx = sf_w (shared s) \<and> tex_h tx = sf_h (shared s) \<and>
               0 < sf_w (shared s) \<and> 0 < sf_h (shared s)))"

text \<open>Whether the update has to allocate, and whether the allocation then succeeds.\<close>

definition needs_alloc :: "texture \<Rightarrow> session \<Rightarrow> bool" where
  "needs_alloc src s \<longleftrightarrow>
     sf_tex (shared s) = None \<or> sf_w (shared s) \<noteq> tex_w src \<or> sf_h (shared s) \<noteq> tex_h src"

definition alloc_succeeds :: "frame_env \<Rightarrow> texture \<Rightarrow> session \<Rightarrow> bool" where
  "alloc_succeeds env src s \<longleftrightarrow>
     fst (CreateTexture2D (create_ok env) (tex_w src) (tex_h src) (d3d s)) \<noteq> None"

text \<open>Whether an invocation of the callback gets as far as the update.\<close>

definition reaches_update :: "frame_env \<Rightarrow> session \<Rightarrow> bool" where
  "reaches_update env s \<longleftrightarrow>
     running s \<and> next_frame env \<noteq> None \<and> query_interface_ok env \<and> get_interface_ok env"

subsection \<open>Concrete inputs\<close>

text \<open>
  A device without textures, a frame of two pixels by one, a platform that lets every call
  succeed, and the session \<^verbatim>\<open>main\<close> starts on them.
\<close>

definition empty_device :: device where
  "empty_device = \<lparr>textures = Map.empty, next_tex = 0\<rparr>"

definition demo_frame :: "byte \<Rightarrow> texture" where
  "demo_frame v = \<lparr>tex_w = 2, tex_h = 1, tex_pixels = [v, v + 1, v + 2, 255, v + 3, v + 4, v + 5, 255]\<rparr>"

definition demo_frame_env :: "texture option \<Rightarrow> frame_env" where
  "demo_frame_env f =
     \<lparr>next_frame = f, query_interface_ok = True, get_interface_ok = True, create_ok = True,
      cb_log_ok = True\<rparr>"

definition demo_session :: session where
  "demo_session = session_start empty_device False Map.empty"

definition demo_after_frame :: session where
  "demo_after_frame = snd (FrameArrived (demo_frame_env (Some (demo_frame 7))) demo_session)"

text \<open>
  The effects the callback is said to have at most, and the effects it has at most in the
  code: those, a texture allocation, and the lines it writes to the log.
\<close>

definition claimed_cb_effect :: "effect \<Rightarrow> bool" where
  "claimed_cb_effect e \<longleftrightarrow>
     e = Pool_TryGetNextFrame \<or> e = Counter_fetch_add \<or> e = Lock_acquire \<or>
     e = Lock_release \<or> e = Gpu_CopyResource"

definition cb_effect :: "effect \<Rightarrow> bool" where
  "cb_effect e \<longleftrightarrow>
     claimed_cb_effect e \<or> (\<exists>a b. e = Gpu_CreateTexture2D a b) \<or> log_effect e"

text \<open>
  The order of teardown as the specification has it, with the process handle released last;
  the calls of the teardown in the order of the code; and the number of waits that time out
  before the handle is signalled.
\<close>

definition claimed_teardown_order :: "action list \<Rightarrow> bool" where
  "claimed_teardown_order tr \<longleftrightarrow>
     precedes Store_running_false FrameArrived_revoke tr \<and>
     precedes FrameArrived_revoke Session_Close tr \<and>
     precedes FrameArrived_revoke FramePool_Close tr \<and>
     precedes Session_Close Store_saverRun_false tr \<and>
     precedes FramePool_Close Store_saverRun_false tr \<and>
     precedes Store_saverRun_false Saver_join tr \<and>
     precedes Saver_join CloseHandle tr"

definition teardown_calls :: "action list" where
  "teardown_calls =
     [CloseHandle, Store_running_false, FrameArrived_revoke, Session_Close, FramePool_Close,
      Store_saverRun_false, Saver_join, Log Process_ended_exit_code]"

definition timeouts :: "wait_result list \<Rightarrow> nat" where
  "timeouts waits = length (takeWhile (\<lambda>r. r = WAIT_TIMEOUT) waits)"

text \<open>The effects on the files of the frames directory.\<close>

definition file_effect :: "effect \<Rightarrow> bool" where
  "file_effect e =
     (case e of
        File_fopen _ \<Rightarrow> True | File_fwrite _ _ \<Rightarrow> True | File_fclose _ \<Rightarrow> True
      | File_rename _ _ \<Rightarrow> True | File_remove _ \<Rightarrow> True
      | _ \<Rightarrow> False)"

text \<open>
  A session in which the frame counter is 0 before and after every event, and the state
  of a session that has not retrieved a frame.
\<close>

fun stays_zero :: "string \<Rightarrow> event list \<Rightarrow> session \<Rightarrow> bool" where
  "stays_zero baseDir [] s \<longleftrightarrow> frameEvents s = 0"
| "stays_zero baseDir (ev # evs) s \<longleftrightarrow>
     frameEvents s = 0 \<and>
     (case step baseDir ev s of Inl e \<Rightarrow> True | Inr (es, s') \<Rightarrow> stays_zero baseDir evs s')"

definition no_frame_yet :: "session \<Rightarrow> bool" where
  "no_frame_yet s \<longleftrightarrow> running s \<and> saverRun s \<and> sf_tex (shared s) = None \<and> frameEvents s = 0"

text \<open>
  A wall-clock reading, a platform that lets every call of a save succeed, and a tick at a
  given time since the start of the session.
\<close>

definition demo_clock :: wall_clock where
  "demo_clock =
     \<lparr>tm_year = 124, tm_mon = 0, tm_mday = 31, tm_hour = 23, tm_min = 59, tm_sec = 7,
      msPart = 42\<rparr>"

definition demo_save_env :: save_env where
  "demo_save_env =
     \<lparr>staging_ok = True, map_ok = True, RowPitch = 16, fopen_ok = True, room = None,
      rename_ok = True,
      remove_ok = True, rename2_ok = True, sv_log_ok = True\<rparr>"

definition demo_tick_env :: "int \<Rightarrow> tick_env" where
  "demo_tick_env ms = \<lparr>elapsed_ms = ms, now = demo_clock, save = demo_save_env\<rparr>"

text \<open>
  The layout of the rows as the specification words it: the padding that fills a row of
  three bytes per pixel up to a multiple of four, and row \<open>y\<close> of the output, the
  B, G and R bytes of pixel after pixel of row \<open>y\<close> of the input followed by the
  padding, all zero.
\<close>

definition spec_pad :: "int \<Rightarrow> int" where
  "spec_pad w = (4 - (3 * w mod 4)) mod 4"

definition spec_bmp_row :: "byte list \<Rightarrow> int \<Rightarrow> nat \<Rightarrow> byte list" where
  "spec_bmp_row bgra w y =
     concat (map (\<lambda>x. [bgra ! (4 * (y * nat w + x)), bgra ! (4 * (y * nat w + x) + 1),
                        bgra ! (4 * (y * nat w + x) + 2)]) [0..<nat w]) @
     replicate (nat (spec_pad w)) 0"

text \<open>
  The largest values of the \<^verbatim>\<open>int\<close>s that \<^verbatim>\<open>BmpWriter::write\<close> computes for a
  positive width and height: the size of the data, the offset of the last row and the
  index of the last byte it reads in a row.
\<close>

definition ints_fit :: "int \<Rightarrow> int \<Rightarrow> bool" where
  "ints_fit w h \<longleftrightarrow>
     in_int (bmp_dataSize w h) \<and> in_int ((h - 1) * w * 4) \<and> in_int ((w - 1) * 4 + 2)"

text \<open>The file of the frame of two pixels: the two headers and one row, padded.\<close>

definition demo_bmp :: "byte list" where
  "demo_bmp =
     [66, 77, 62, 0, 0, 0, 0, 0, 0, 0, 54, 0, 0, 0,
      40, 0, 0, 0, 2, 0, 0, 0, 255, 255, 255, 255, 1, 0, 24, 0, 0, 0, 0, 0, 0, 0, 0, 0,
      0, 0, 0, 0, 0, 0, 0, 0, 0, 0, 0, 0, 0, 0, 0, 0,
      7, 8, 9, 10, 11, 12, 0, 0]"

text \<open>
  A frame of the given dimensions, whose content has the size of those dimensions; an
  invocation of the callback in which every call of the platform succeeds, so that it
  completes its update; a session whose buffer holds a texture equal to a frame; and the
  effect of writing a file's content.
\<close>

definition wf_frame :: "UINT \<Rightarrow> UINT \<Rightarrow> texture \<Rightarrow> bool" where
  "wf_frame wd ht f \<longleftrightarrow>
     tex_w f = wd \<and> tex_h f = ht \<and> length (tex_pixels f) = 4 * unat wd * unat ht"

definition completes :: "frame_env \<Rightarrow> bool" where
  "completes env \<longleftrightarrow>
     next_frame env \<noteq> None \<and> query_interface_ok env \<and> get_interface_ok env \<and> create_ok env"

definition holds_frame :: "texture \<Rightarrow> session \<Rightarrow> bool" where
  "holds_frame f s =
     (case sf_tex (shared s) of
        None \<Rightarrow> False
      | Some t \<Rightarrow>
          t < next_tex (d3d s) \<and> textures (d3d s) t = Some f \<and>
          sf_w (shared s) = tex_w f \<and> sf_h (shared s) = tex_h f)"

definition fwrite_effect :: "effect \<Rightarrow> bool" where
  "fwrite_effect e = (case e of File_fwrite _ _ \<Rightarrow> True | _ \<Rightarrow> False)"

text \<open>
  The decimal digits of a number in a field of fixed width, zero-padded, as the pattern of
  the specification has them: \<open>k\<close> digits, the most significant first.
\<close>

fun pad_digits :: "nat \<Rightarrow> nat \<Rightarrow> string" where
  "pad_digits 0 n = []"
| "pad_digits (Suc k) n = pad_digits k (n div 10) @ [digit_char (n mod 10)]"

text \<open>
  The fields of a wall-clock reading in the order of the file name, the chronological
  order of two readings, and the readings whose fields fit the widths of the format (the
  years 0 to 9999).
\<close>

definition clock_fields :: "wall_clock \<Rightarrow> int list" where
  "clock_fields c =
     [tm_year c + 1900, tm_mon c + 1, tm_mday c, tm_hour c, tm_min c, tm_sec c, msPart c]"

definition clock_le :: "wall_clock \<Rightarrow> wall_clock \<Rightarrow> bool" where
  "clock_le a b \<longleftrightarrow> clock_fields a \<le> clock_fields b"

definition clock_ok :: "wall_clock \<Rightarrow> bool" where
  "clock_ok c \<longleftrightarrow>
     0 \<le> tm_year c + 1900 \<and> tm_year c + 1900 < 10000 \<and>
     0 \<le> tm_mon c + 1 \<and> tm_mon c + 1 < 100 \<and>
     0 \<le> tm_mday c \<and> tm_mday c < 100 \<and>
     0 \<le> tm_hour c \<and> tm_hour c < 100 \<and>
     0 \<le> tm_min c \<and> tm_min c < 100 \<and>
     0 \<le> tm_sec c \<and> tm_sec c < 100 \<and>
     0 \<le> msPart c \<and> msPart c < 1000"

text \<open>
  The name of the pattern of the specification for a reading and a sequence number: the
  UTC timestamp with its fields in their fixed widths, down to the millisecond, and the
  sequence number in five digits.
\<close>

definition spec_frame_name :: "wall_clock \<Rightarrow> int \<Rightarrow> string" where
  "spec_frame_name c i =
     pad_digits 4 (nat (tm_year c + 1900)) @ ''-'' @ pad_digits 2 (nat (tm_mon c + 1)) @ ''-'' @
     pad_digits 2 (nat (tm_mday c)) @ ''T'' @ pad_digits 2 (nat (tm_hour c)) @ ''-'' @
     pad_digits 2 (nat (tm_min c)) @ ''-'' @ pad_digits 2 (nat (tm_sec c)) @ ''.'' @
     pad_digits 3 (nat (msPart c)) @ ''Z_'' @ pad_digits 5 (nat i) @ ''.bmp''"

text \<open>The number that a string of decimal digits denotes.\<close>

definition dec_val :: "string \<Rightarrow> nat" where
  "dec_val xs = foldl (\<lambda>a c. 10 * a + (of_char c - 48)) 0 xs"

text \<open>
  The paths of the files whose content a run writes, in the order of writing; the
  wall-clock readings of the ticks of a session, in their order; and the path of the frame
  of a reading and a sequence number.
\<close>

definition written :: "effect list \<Rightarrow> string list" where
  "written es = concat (map (\<lambda>e. case e of File_fwrite p b \<Rightarrow> [p] | _ \<Rightarrow> []) es)"

definition tick_clocks :: "event list \<Rightarrow> wall_clock list" where
  "tick_clocks evs = concat (map (\<lambda>ev. case ev of Tick env \<Rightarrow> [now env] | Frame _ \<Rightarrow> []) evs)"

definition frame_path :: "string \<Rightarrow> wall_clock \<times> int \<Rightarrow> string" where
  "frame_path baseDir k = path_append baseDir (frame_name (fst k) (snd k))"

text \<open>A tick at a given wall-clock reading, and a reading one second before the first.\<close>

definition tick_at :: "wall_clock \<Rightarrow> tick_env" where
  "tick_at c = \<lparr>elapsed_ms = 1000, now = c, save = demo_save_env\<rparr>"

definition demo_clock_back :: wall_clock where
  "demo_clock_back = demo_clock\<lparr>tm_sec := 6\<rparr>"

text \<open>
  A save on a full disk: the temporary file can be opened and takes none of the bytes
  written to it. A session of one frame and one tick with such a save, and the path of the
  file of that tick.
\<close>

definition full_disk_env :: save_env where
  "full_disk_env = demo_save_env\<lparr>room := Some 0\<rparr>"

definition full_disk_run :: "error + effect list \<times> session" where
  "full_disk_run =
     run ''frames''
       [Frame (demo_frame_env (Some (demo_frame 7))),
        Tick \<lparr>elapsed_ms = 1000, now = demo_clock, save = full_disk_env\<rparr>]
       demo_session"

definition demo_path :: string where
  "demo_path = path_append ''frames'' ''2024-01-31T23-59-07.042Z_00000.bmp''"

section \<open>Properties\<close>

subsection \<open>The shared frame buffer\<close>

lemma valid_dim_pos: "valid_dim d \<Longrightarrow> 0 < d"
  by (auto simp: valid_dim_def word_greater_zero_iff unat_eq_zero)

lemma logf_no_gpu:
  "Gpu_CreateTexture2D a b \<notin> set (logf ok ev)" "Gpu_CopyResource \<notin> set (logf ok ev)"
  by (auto simp: logf_def log_line_def)

text \<open>
  C7. The update allocates a texture exactly when there is none yet or the stored
  dimensions differ from the frame's. When that allocation fails the update returns with
  the session unchanged and without a copy. In every other case the frame is copied into
  the buffer, whose stored dimensions, and those of the texture it points to, are then the
  frame's, and whose pixel content is the frame's.
\<close>

theorem update_allocates_and_copies:
  assumes inv: "shared_inv s" and upd: "update env src s = (es, s')"
  shows "((\<exists>a b. Gpu_CreateTexture2D a b \<in> set es) \<longleftrightarrow> needs_alloc src s) \<and>
         (needs_alloc src s \<and> \<not> alloc_succeeds env src s \<longrightarrow>
            s' = s \<and> Gpu_CopyResource \<notin> set es) \<and>
         (\<not> (needs_alloc src s \<and> \<not> alloc_succeeds env src s) \<longrightarrow>
            Gpu_CopyResource \<in> set es \<and>
            sf_w (shared s') = tex_w src \<and> sf_h (shared s') = tex_h src \<and>
            (\<exists>t tx. sf_tex (shared s') = Some t \<and> textures (d3d s') t = Some tx \<and>
                    tex_w tx = tex_w src \<and> tex_h tx = tex_h src \<and>
                    tex_pixels tx = tex_pixels src))"
proof (cases "needs_alloc src s")
  case True
  note na = True
  show ?thesis
  proof (cases "alloc_succeeds env src s")
    case True
    with na upd show ?thesis
      by (auto simp: update_def needs_alloc_def alloc_succeeds_def CreateTexture2D_def
          CopyResource_def Let_def logf_no_gpu split: if_splits)
  next
    case False
    with na upd show ?thesis
      by (auto simp: update_def needs_alloc_def alloc_succeeds_def CreateTexture2D_def
          Let_def split: if_splits)
  qed
next
  case False
  then obtain t where t: "sf_tex (shared s) = Some t"
    and dims: "sf_w (shared s) = tex_w src" "sf_h (shared s) = tex_h src"
    by (auto simp: needs_alloc_def)
  from inv t obtain tx where tx: "textures (d3d s) t = Some tx"
    "tex_w tx = sf_w (shared s)" "tex_h tx = sf_h (shared s)"
    by (auto simp: shared_inv_def split: option.splits)
  from False upd t dims tx show ?thesis
    by (auto simp: update_def needs_alloc_def CopyResource_def Let_def)
qed

lemmas demo_defs = demo_session_def session_start_def empty_device_def demo_frame_def
  demo_frame_env_def

theorem update_allocates_and_copies_witness:
  "shared_inv demo_session \<and>
   needs_alloc (demo_frame 7) demo_session \<and>
   alloc_succeeds (demo_frame_env None) (demo_frame 7) demo_session \<and>
   Gpu_CopyResource \<in> set (fst (update (demo_frame_env None) (demo_frame 7) demo_session)) \<and>
   sf_w (shared (snd (update (demo_frame_env None) (demo_frame 7) demo_session))) = 2"
  using update_allocates_and_copies [of demo_session "demo_frame_env None" "demo_frame 7"
      "fst (update (demo_frame_env None) (demo_frame 7) demo_session)"
      "snd (update (demo_frame_env None) (demo_frame 7) demo_session)"]
  by (simp add: demo_defs shared_inv_def needs_alloc_def alloc_succeeds_def
      CreateTexture2D_def valid_dim_def D3D11_REQ_TEXTURE2D_U_OR_V_DIMENSION_def)

lemma alloc_succeeds_counter [simp]:
  "alloc_succeeds env src (s\<lparr>frameEvents := c\<rparr>) = alloc_succeeds env src s"
  by (simp add: alloc_succeeds_def)

lemma shared_inv_counter [simp]: "shared_inv (s\<lparr>frameEvents := c\<rparr>) = shared_inv s"
  by (simp add: shared_inv_def split: option.splits)

lemma update_inv:
  assumes "shared_inv s" and "update env src s = (es, s')"
  shows "shared_inv s'"
  using assms
  by (auto simp: update_def shared_inv_def CreateTexture2D_def CopyResource_def Let_def
      valid_dim_pos split: if_splits option.splits)

lemma update_tex:
  assumes "update env src s = (es, s')"
  shows "sf_tex (shared s') \<noteq> None \<longleftrightarrow> sf_tex (shared s) \<noteq> None \<or> alloc_succeeds env src s"
  using assms
  by (auto simp: update_def alloc_succeeds_def CreateTexture2D_def Let_def
      split: if_splits option.splits)

lemma FrameArrived_inv:
  assumes "shared_inv s" and "FrameArrived env s = (es, s')"
  shows "shared_inv s'"
  using assms update_inv[of "s\<lparr>frameEvents := frameEvents s + 1\<rparr>" env _ _ s']
  by (auto simp: FrameArrived_def Let_def split: if_splits option.splits prod.splits)

lemma FrameArrived_tex:
  assumes "FrameArrived env s = (es, s')"
  shows "sf_tex (shared s') \<noteq> None \<longleftrightarrow>
         sf_tex (shared s) \<noteq> None \<or>
         (\<exists>src. next_frame env = Some src \<and> reaches_update env s \<and> alloc_succeeds env src s)"
proof (cases "reaches_update env s")
  case False
  with assms show ?thesis
    by (auto simp: FrameArrived_def reaches_update_def Let_def split: if_splits option.splits)
next
  case True
  then obtain src where src: "next_frame env = Some src"
    by (auto simp: reaches_update_def)
  with True assms have "update env src (s\<lparr>frameEvents := frameEvents s + 1\<rparr>) = (drop (length ([Pool_TryGetNextFrame, Counter_fetch_add] @
                       logf (cb_log_ok env) (Frame_event (frameEvents s + 1)))) es, s')"
    by (auto simp: FrameArrived_def reaches_update_def Let_def split: prod.splits)
  from update_tex[OF this] src True show ?thesis by simp
qed

lemma write_and_rename_keeps:
  assumes "write_and_rename env bgra wd ht p s = Inr (es, s')"
  shows "shared s' = shared s \<and> d3d s' = d3d s \<and> running s' = running s \<and>
         frameEvents s' = frameEvents s \<and> saverRun s' = saverRun s \<and> saveIdx s' = saveIdx s"
  using assms
  by (auto simp: write_and_rename_def Let_def split: sum.splits option.splits prod.splits bool.splits)

lemma save_keeps_shared:
  assumes "save_staging_to_file env t p s = Inr (es, s')"
  shows "shared s' = shared s \<and> running s' = running s \<and>
         frameEvents s' = frameEvents s \<and> saverRun s' = saverRun s \<and> saveIdx s' = saveIdx s"
  using assms
  by (auto simp: save_staging_to_file_def Let_def
      split: sum.splits option.splits prod.splits if_splits dest!: write_and_rename_keeps)

lemma save_keeps_textures:
  assumes "save_staging_to_file env t p s = Inr (es, s')" and "u < next_tex (d3d s)"
  shows "textures (d3d s') u = textures (d3d s) u \<and> next_tex (d3d s) \<le> next_tex (d3d s')"
  using assms
  by (auto simp: save_staging_to_file_def Let_def CreateTexture2D_def CopyResource_def
      split: sum.splits option.splits prod.splits if_splits dest!: write_and_rename_keeps)

lemma save_inv:
  assumes "shared_inv s" and "save_staging_to_file env t p s = Inr (es, s')"
  shows "shared_inv s'"
proof (cases "sf_tex (shared s)")
  case None
  with assms save_keeps_shared[OF assms(2)] show ?thesis by (simp add: shared_inv_def)
next
  case (Some u)
  with assms(1) have "u < next_tex (d3d s)" by (simp add: shared_inv_def)
  from save_keeps_textures[OF assms(2) this] save_keeps_shared[OF assms(2)] assms(1) Some
  show ?thesis by (auto simp: shared_inv_def split: option.splits)
qed

lemma shared_inv_saveIdx [simp]: "shared_inv (s\<lparr>saveIdx := c\<rparr>) = shared_inv s"
  by (simp add: shared_inv_def split: option.splits)

lemma saver_tick_inv:
  assumes "shared_inv s" and "saver_tick baseDir env s = Inr (out, es, s')"
  shows "shared_inv s' \<and> shared s' = shared s"
  using assms save_inv[of "s\<lparr>saveIdx := int_incr (saveIdx s)\<rparr>" "save env" _ _ _ s']
    save_keeps_shared[of "save env" _ _ "s\<lparr>saveIdx := int_incr (saveIdx s)\<rparr>" _ s']
  by (auto simp: saver_tick_def Let_def split: if_splits option.splits sum.splits prod.splits)

lemma step_inv:
  assumes "shared_inv s" and "step baseDir ev s = Inr (es, s')"
  shows "shared_inv s' \<and> (sf_tex (shared s) \<noteq> None \<longrightarrow> sf_tex (shared s') \<noteq> None)"
proof (cases ev)
  case (Frame env)
  with assms have fa: "FrameArrived env s = (es, s')" by simp
  from FrameArrived_inv[OF assms(1) fa] FrameArrived_tex[OF fa] show ?thesis by simp
next
  case (Tick env)
  with assms obtain out where "saver_tick baseDir env s = Inr (out, es, s')"
    by (auto split: sum.splits)
  from saver_tick_inv[OF assms(1) this] show ?thesis by simp
qed

lemma run_inv:
  "shared_inv s \<Longrightarrow> run baseDir evs s = Inr (es, s') \<Longrightarrow>
   shared_inv s' \<and> (sf_tex (shared s) \<noteq> None \<longrightarrow> sf_tex (shared s') \<noteq> None)"
proof (induction evs arbitrary: s es)
  case Nil
  then show ?case by simp
next
  case (Cons ev evs)
  from Cons.prems(2) obtain e1 s1 e2 where
    st: "step baseDir ev s = Inr (e1, s1)" and rn: "run baseDir evs s1 = Inr (e2, s')"
    by (auto split: sum.splits prod.splits)
  from step_inv[OF Cons.prems(1) st] Cons.IH[OF _ rn] show ?case by simp
qed

lemma snapshot_inv:
  assumes "shared_inv s" and "snapshot s = Some (t, wd, ht)"
  shows "\<exists>tx. textures (d3d s) t = Some tx \<and> tex_w tx = wd \<and> tex_h tx = ht \<and> 0 < wd \<and> 0 < ht"
  using assms by (auto simp: shared_inv_def snapshot_def split: option.splits)

lemma session_start_inv: "shared_inv (session_start d p fs)"
  by (simp add: shared_inv_def session_start_def)

text \<open>
  C9. The invariant of the shared frame buffer. A session starts with no texture and both
  dimensions 0. Every state a session reaches satisfies the invariant: a texture, once
  there, is a texture of the device with the stored dimensions, both positive. A callback
  keeps the invariant and leaves a texture in the buffer exactly when there was one before
  or its update allocated one successfully; a saver tick leaves the buffer as it was. A
  snapshot returns the texture with the dimensions that texture has.
\<close>

theorem shared_frame_invariant:
  "shared_inv (session_start d p fs) \<and>
   shared (session_start d p fs) = \<lparr>sf_tex = None, sf_w = 0, sf_h = 0\<rparr> \<and>
   (\<forall>evs es s'. run baseDir evs (session_start d p fs) = Inr (es, s') \<longrightarrow> shared_inv s') \<and>
   (\<forall>s env es s'. shared_inv s \<and> FrameArrived env s = (es, s') \<longrightarrow>
      shared_inv s' \<and>
      (sf_tex (shared s') \<noteq> None \<longleftrightarrow>
         sf_tex (shared s) \<noteq> None \<or>
         (\<exists>src. next_frame env = Some src \<and> reaches_update env s \<and> alloc_succeeds env src s))) \<and>
   (\<forall>s env out es s'. shared_inv s \<and> saver_tick baseDir env s = Inr (out, es, s') \<longrightarrow>
      shared_inv s' \<and> shared s' = shared s) \<and>
   (\<forall>s t wd ht. shared_inv s \<and> snapshot s = Some (t, wd, ht) \<longrightarrow>
      (\<exists>tx. textures (d3d s) t = Some tx \<and> tex_w tx = wd \<and> tex_h tx = ht \<and>
            0 < wd \<and> 0 < ht))"
proof (intro conjI allI impI)
  show "shared_inv (session_start d p fs)" by (rule session_start_inv)
  show "shared (session_start d p fs) = \<lparr>sf_tex = None, sf_w = 0, sf_h = 0\<rparr>"
    by (simp add: session_start_def)
next
  fix evs es s'
  assume "run baseDir evs (session_start d p fs) = Inr (es, s')"
  from run_inv[OF session_start_inv this] show "shared_inv s'" by simp
next
  fix s env es s'
  assume a: "shared_inv s \<and> FrameArrived env s = (es, s')"
  then show "shared_inv s'" using FrameArrived_inv by blast
  from a show "(sf_tex (shared s') \<noteq> None) =
         (sf_tex (shared s) \<noteq> None \<or>
         (\<exists>src. next_frame env = Some src \<and> reaches_update env s \<and> alloc_succeeds env src s))"
    using FrameArrived_tex by blast
next
  fix s env out es s'
  assume a: "shared_inv s \<and> saver_tick baseDir env s = Inr (out, es, s')"
  then show "shared_inv s'" "shared s' = shared s" using saver_tick_inv by blast+
next
  fix s t wd ht
  assume "shared_inv s \<and> snapshot s = Some (t, wd, ht)"
  then show "\<exists>tx. textures (d3d s) t = Some tx \<and> tex_w tx = wd \<and> tex_h tx = ht \<and>
            0 < wd \<and> 0 < ht"
    using snapshot_inv by blast
qed

theorem shared_frame_invariant_witness:
  "shared_inv demo_session \<and>
   shared_inv demo_after_frame \<and>
   snapshot demo_after_frame = Some (0, 2, 1) \<and>
   (\<exists>tx. textures (d3d demo_after_frame) 0 = Some tx \<and> tex_w tx = 2 \<and> tex_h tx = 1)"
proof -
  note inv = shared_frame_invariant [of empty_device False Map.empty "''frames''",
      folded demo_session_def]
  have a: "shared_inv demo_session" using inv by blast
  have fa: "FrameArrived (demo_frame_env (Some (demo_frame 7))) demo_session =
      (fst (FrameArrived (demo_frame_env (Some (demo_frame 7))) demo_session), demo_after_frame)"
    by (simp add: demo_after_frame_def)
  have b: "shared_inv demo_after_frame" using inv a fa by blast
  have c: "snapshot demo_after_frame = Some (0, 2, 1)"
    by (simp add: demo_after_frame_def demo_defs FrameArrived_def update_def Let_def
        CreateTexture2D_def CopyResource_def valid_dim_def snapshot_def
        D3D11_REQ_TEXTURE2D_U_OR_V_DIMENSION_def)
  have d: "\<exists>tx. textures (d3d demo_after_frame) 0 = Some tx \<and> tex_w tx = 2 \<and> tex_h tx = 1"
    using inv b c by blast
  from a b c d show ?thesis by blast
qed

subsection \<open>The effects of the callback\<close>

lemma log_line_effects: "e \<in> set (log_line ok ev) \<Longrightarrow> log_effect e"
  by (auto simp: log_line_def log_effect_def split: if_splits)

lemma logf_effects: "e \<in> set (logf ok ev) \<Longrightarrow> log_effect e"
  by (simp add: logf_def log_line_effects)


lemma logf_cb_effect: "e \<in> set (logf ok ev) \<Longrightarrow> cb_effect e"
  by (simp add: cb_effect_def logf_effects)

lemma cb_effect_simps:
  "cb_effect Pool_TryGetNextFrame" "cb_effect Counter_fetch_add" "cb_effect Lock_acquire"
  "cb_effect Lock_release" "cb_effect Gpu_CopyResource" "cb_effect (Gpu_CreateTexture2D a b)"
  by (simp_all add: cb_effect_def claimed_cb_effect_def)

lemma update_effects:
  assumes "update env src s = (es, s')" and "e \<in> set es"
  shows "cb_effect e"
  using assms
  by (auto simp: update_def Let_def cb_effect_simps
      split: if_splits option.splits prod.splits intro: logf_cb_effect)

lemma FrameArrived_effects:
  assumes "FrameArrived env s = (es, s')" and "e \<in> set es"
  shows "cb_effect e"
  using assms
  by (auto simp: FrameArrived_def Let_def cb_effect_simps
      split: if_splits option.splits prod.splits intro: logf_cb_effect update_effects)





subsection \<open>Monitoring and teardown\<close>

lemma wait_loop_signalled:
  "\<exists>r \<in> set waits. r \<noteq> WAIT_TIMEOUT \<Longrightarrow>
   wait_loop waits st =
     Some (st\<lparr>trace := trace st @ replicate (Suc (timeouts waits)) WaitForSingleObject @
                        [GetExitCodeProcess]\<rparr>)"
proof (induction waits arbitrary: st)
  case Nil
  then show ?case by simp
next
  case (Cons r rs)
  show ?case
  proof (cases "r = WAIT_TIMEOUT")
    case True
    with Cons.prems have "\<exists>r \<in> set rs. r \<noteq> WAIT_TIMEOUT" by simp
    from Cons.IH[OF this, of "act WaitForSingleObject st"] True show ?thesis
      by (simp add: act_def timeouts_def replicate_append_same)
  next
    case False
    then show ?thesis by (simp add: act_def timeouts_def)
  qed
qed

lemma wait_loop_waiting:
  "\<forall>r \<in> set waits. r = WAIT_TIMEOUT \<Longrightarrow> wait_loop waits st = None"
  by (induction waits arbitrary: st) auto

lemma grace_period_trace:
  "grace_period n st = st\<lparr>trace := trace st @ replicate n (Sleep_for_ms 50)\<rparr>"
  by (induction n arbitrary: st) (simp_all add: act_def replicate_append_same)

lemma teardown_joinable:
  "saver_joinable st \<Longrightarrow>
   teardown st = st\<lparr>sv_running := False, sv_saverRun := False, saver_joinable := False,
                   trace := trace st @ teardown_calls\<rparr>"
  by (simp add: teardown_def join_saver_def act_def teardown_calls_def)

text \<open>
  C2, as the code has it. When the wait on the process handle is signalled, the pass returns
  and goes on to the next one, and after the grace period it has made these calls in this
  order: it releases the process handle first, then clears the running flag, unregisters
  the callback, closes the capture session, closes the frame pool, clears the saver's flag
  and joins the saver thread.
\<close>

theorem teardown_order_in_code:
  assumes "\<exists>r \<in> set waits. r \<noteq> WAIT_TIMEOUT"
  shows "monitor_session True waits n saver_spawned =
           Some (Next_pass,
                 \<lparr>sv_running = False, sv_saverRun = False, saver_joinable = False,
                  trace = OpenProcess # replicate (Suc (timeouts waits)) WaitForSingleObject @
                          GetExitCodeProcess # replicate n (Sleep_for_ms 50) @
                          [CloseHandle, Store_running_false, FrameArrived_revoke,
                           Session_Close, FramePool_Close, Store_saverRun_false, Saver_join,
                           Log Process_ended_exit_code]\<rparr>)"
  using assms
  by (simp add: monitor_session_def wait_loop_signalled grace_period_trace teardown_joinable
      end_of_pass_def saver_spawned_def act_def teardown_calls_def)

theorem teardown_order_in_code_witness:
  "(\<exists>r \<in> set [WAIT_TIMEOUT, WAIT_OBJECT_0]. r \<noteq> WAIT_TIMEOUT) \<and>
   monitor_session True [WAIT_TIMEOUT, WAIT_OBJECT_0] 2 saver_spawned =
     Some (Next_pass,
           \<lparr>sv_running = False, sv_saverRun = False, saver_joinable = False,
            trace = [OpenProcess, WaitForSingleObject, WaitForSingleObject, GetExitCodeProcess,
                     Sleep_for_ms 50, Sleep_for_ms 50,
                     CloseHandle, Store_running_false, FrameArrived_revoke,
                     Session_Close, FramePool_Close, Store_saverRun_false, Saver_join,
                     Log Process_ended_exit_code]\<rparr>)"
  using teardown_order_in_code [of "[WAIT_TIMEOUT, WAIT_OBJECT_0]" 2]
  by (simp add: timeouts_def numeral_2_eq_2)

text \<open>
  C2 as stated fails: in the trace of a pass whose first wait is signalled, the release of
  the process handle does not come after the join of the saver; it comes before the running
  flag is cleared.
\<close>

theorem teardown_handle_last_counterexample:
  "monitor_session True [WAIT_OBJECT_0] 0 saver_spawned =
     Some (Next_pass,
           \<lparr>sv_running = False, sv_saverRun = False, saver_joinable = False,
            trace = [OpenProcess, WaitForSingleObject, GetExitCodeProcess,
                     CloseHandle, Store_running_false, FrameArrived_revoke,
                     Session_Close, FramePool_Close, Store_saverRun_false, Saver_join,
                     Log Process_ended_exit_code]\<rparr>) \<and>
   \<not> claimed_teardown_order
        [OpenProcess, WaitForSingleObject, GetExitCodeProcess,
         CloseHandle, Store_running_false, FrameArrived_revoke,
         Session_Close, FramePool_Close, Store_saverRun_false, Saver_join,
         Log Process_ended_exit_code] \<and>
   precedes CloseHandle Store_running_false
        [OpenProcess, WaitForSingleObject, GetExitCodeProcess,
         CloseHandle, Store_running_false, FrameArrived_revoke,
         Session_Close, FramePool_Close, Store_saverRun_false, Saver_join,
         Log Process_ended_exit_code]"
  by (simp add: monitor_session_def end_of_pass_def teardown_def join_saver_def act_def
      saver_spawned_def claimed_teardown_order_def precedes_def)

text \<open>
  C3. When \<^verbatim>\<open>OpenProcess\<close> fails, the pass logs the failure, unregisters the callback,
  closes the frame pool and the session, and leaves the loop body by \<^verbatim>\<open>continue\<close>
  with both flags still set and the saver thread neither stopped nor joined: the
  destruction of the joinable thread object ends the process.
\<close>

theorem open_proc_fail_terminates:
  "monitor_session False waits n saver_spawned =
     Some (Process_terminated,
           \<lparr>sv_running = True, sv_saverRun = True, saver_joinable = True,
            trace = [OpenProcess, Log Open_proc_fail, FrameArrived_revoke, FramePool_Close,
                     Session_Close, Std_terminate]\<rparr>)"
  by (simp add: monitor_session_def end_of_pass_def act_def saver_spawned_def)

subsection \<open>A session without frames\<close>

lemma stays_zero_now: "stays_zero baseDir evs s \<Longrightarrow> frameEvents s = 0"
  by (cases evs) simp_all

lemma update_counter: "update env src s = (es, s') \<Longrightarrow> frameEvents s' = frameEvents s"
  by (auto simp: update_def Let_def split: if_splits option.splits prod.splits)

lemma FrameArrived_no_frame:
  assumes "no_frame_yet s" and "FrameArrived env s = (es, s')" and "frameEvents s' = 0"
  shows "s' = s \<and> es = [Pool_TryGetNextFrame]"
proof (cases "next_frame env")
  case None
  with assms show ?thesis by (auto simp: FrameArrived_def no_frame_yet_def)
next
  case (Some src)
  with assms have "frameEvents s' = 1"
    by (auto simp: FrameArrived_def no_frame_yet_def Let_def split: if_splits prod.splits
        dest: update_counter)
  with assms(3) show ?thesis by simp
qed

lemma saver_tick_no_frame:
  assumes "no_frame_yet s"
  shows "saver_tick baseDir env s =
           Inr (Continue,
                Sleep_until #
                (if 2000 < elapsed_ms env
                 then log_line (sv_log_ok (save env)) Capture_stalled_no_events else []) @
                [Lock_acquire, Lock_release], s)"
  using assms by (simp add: saver_tick_def no_frame_yet_def snapshot_def Let_def)

lemma log_line_no_file: "e \<in> set (log_line ok ev) \<Longrightarrow> \<not> file_effect e"
  by (auto simp: log_line_def file_effect_def split: if_splits)

lemma stalled_in_log_line:
  "Stderr_fputs Capture_stalled_no_events \<in> set (log_line ok Capture_stalled_no_events)"
  by (simp add: log_line_def)

lemma step_no_frame:
  assumes "no_frame_yet s" and "stays_zero baseDir (ev # evs) s"
  shows "\<exists>es. step baseDir ev s = Inr (es, s) \<and> (\<forall>e \<in> set es. \<not> file_effect e) \<and>
              stays_zero baseDir evs s"
proof (cases ev)
  case (Frame env)
  obtain es s' where fa: "FrameArrived env s = (es, s')" by (cases "FrameArrived env s")
  with assms(2) Frame have sz: "stays_zero baseDir evs s'" by simp
  from FrameArrived_no_frame[OF assms(1) fa stays_zero_now[OF sz]] fa sz Frame
  show ?thesis by (simp add: file_effect_def)
next
  case (Tick env)
  with assms saver_tick_no_frame[OF assms(1), of baseDir env] show ?thesis
    by (auto simp: file_effect_def dest: log_line_no_file)
qed

lemma run_no_frame:
  "no_frame_yet s \<Longrightarrow> stays_zero baseDir evs s \<Longrightarrow>
   \<exists>es. run baseDir evs s = Inr (es, s) \<and> (\<forall>e \<in> set es. \<not> file_effect e) \<and>
        (\<forall>env. Tick env \<in> set evs \<longrightarrow> (\<exists>e2. saver_tick baseDir env s = Inr (Continue, e2, s) \<and>
             set e2 \<subseteq> set es))"
proof (induction evs)
  case Nil
  then show ?case by simp
next
  case (Cons ev evs)
  from step_no_frame[OF Cons.prems] obtain e1 where
    st: "step baseDir ev s = Inr (e1, s)" and nf: "\<forall>e \<in> set e1. \<not> file_effect e"
    and sz: "stays_zero baseDir evs s" by blast
  from Cons.IH[OF Cons.prems(1) sz] obtain e2 where
    rn: "run baseDir evs s = Inr (e2, s)" and nf2: "\<forall>e \<in> set e2. \<not> file_effect e"
    and tk: "\<forall>env. Tick env \<in> set evs \<longrightarrow> (\<exists>e3. saver_tick baseDir env s = Inr (Continue, e3, s) \<and>
             set e3 \<subseteq> set e2)" by blast
  have "\<exists>e3. saver_tick baseDir env s = Inr (Continue, e3, s) \<and> set e3 \<subseteq> set (e1 @ e2)"
    if "Tick env \<in> set (ev # evs)" for env
  proof (cases "ev = Tick env")
    case True
    with st saver_tick_no_frame[OF Cons.prems(1), of baseDir env] show ?thesis by auto
  next
    case False
    with that have "Tick env \<in> set evs" by simp
    with tk obtain e3 where "saver_tick baseDir env s = Inr (Continue, e3, s)" "set e3 \<subseteq> set e2"
      by blast
    then show ?thesis by auto
  qed
  with st rn nf nf2 show ?case by auto
qed

lemma session_start_no_frame: "no_frame_yet (session_start d p fs)"
  by (simp add: no_frame_yet_def session_start_def)

text \<open>
  C6. In a session whose frame counter stays 0, the run of any sequence of callbacks and
  ticks returns with the session as it started: no file of the frames directory is opened,
  written, renamed or removed. Every tick of it skips at the snapshot, and writes the stall
  diagnostic exactly when more than 2000 ms have passed since the start of the session.
\<close>

theorem no_frames_no_files:
  assumes "stays_zero baseDir evs (session_start d p fs)"
  shows "\<exists>es. run baseDir evs (session_start d p fs) = Inr (es, session_start d p fs) \<and>
              files (session_start d p fs) = fs \<and>
              (\<forall>e \<in> set es. \<not> file_effect e) \<and>
              (\<forall>env. Tick env \<in> set evs \<longrightarrow>
                 (\<exists>e2. saver_tick baseDir env (session_start d p fs) =
                         Inr (Continue, e2, session_start d p fs) \<and>
                       set e2 \<subseteq> set es \<and>
                       (Stderr_fputs Capture_stalled_no_events \<in> set e2 \<longleftrightarrow>
                          2000 < elapsed_ms env)))"
proof -
  let ?s = "session_start d p fs"
  from run_no_frame[OF session_start_no_frame assms] obtain es where
    rn: "run baseDir evs ?s = Inr (es, ?s)" and nf: "\<forall>e \<in> set es. \<not> file_effect e"
    and tk: "\<forall>env. Tick env \<in> set evs \<longrightarrow> (\<exists>e2. saver_tick baseDir env ?s = Inr (Continue, e2, ?s) \<and>
             set e2 \<subseteq> set es)" by blast
  have "\<exists>e2. saver_tick baseDir env ?s = Inr (Continue, e2, ?s) \<and> set e2 \<subseteq> set es \<and>
          (Stderr_fputs Capture_stalled_no_events \<in> set e2 \<longleftrightarrow> 2000 < elapsed_ms env)"
    if "Tick env \<in> set evs" for env
  proof -
    from tk that obtain e2 where e2: "saver_tick baseDir env ?s = Inr (Continue, e2, ?s)"
      "set e2 \<subseteq> set es" by blast
    with saver_tick_no_frame[OF session_start_no_frame, of baseDir env d p fs]
    have "Stderr_fputs Capture_stalled_no_events \<in> set e2 \<longleftrightarrow> 2000 < elapsed_ms env"
      by (auto simp: stalled_in_log_line)
    with e2 show ?thesis by blast
  qed
  with rn nf show ?thesis by (auto simp: session_start_def)
qed

theorem no_frames_no_files_witness:
  "stays_zero ''frames''
     [Frame (demo_frame_env None), Tick (demo_tick_env 1003), Tick (demo_tick_env 2003)]
     (session_start empty_device False Map.empty) \<and>
   (\<exists>es. run ''frames''
           [Frame (demo_frame_env None), Tick (demo_tick_env 1003), Tick (demo_tick_env 2003)]
           (session_start empty_device False Map.empty) =
           Inr (es, session_start empty_device False Map.empty) \<and>
         (\<forall>e \<in> set es. \<not> file_effect e) \<and>
         Stderr_fputs Capture_stalled_no_events \<in> set es)"
proof -
  let ?evs = "[Frame (demo_frame_env None), Tick (demo_tick_env 1003), Tick (demo_tick_env 2003)]"
  have sz: "stays_zero ''frames'' ?evs (session_start empty_device False Map.empty)"
    by (simp add: session_start_def empty_device_def demo_frame_env_def demo_tick_env_def
        FrameArrived_def saver_tick_def snapshot_def Let_def)
  from no_frames_no_files [OF sz] show ?thesis
    using sz by (fastforce simp: demo_tick_env_def)
qed

subsection \<open>The BMP encoder\<close>

lemma and_3_mod_4: "(x::int) AND 3 = x mod 4"
  using take_bit_eq_mask[of 2 x] by (simp add: take_bit_eq_mod mask_eq_exp_minus_1)

lemma smod_nonneg: "0 \<le> (a::int) \<Longrightarrow> 0 < b \<Longrightarrow> a smod b = a mod b"
  by (simp add: smod_int_alt_def sgn_if)

lemma bmp_pad_spec: "0 \<le> w \<Longrightarrow> bmp_pad w = spec_pad w"
  by (simp add: bmp_pad_def spec_pad_def bmp_stride_def and_3_mod_4 smod_nonneg mult.commute)

lemma spec_pad_range: "0 \<le> spec_pad w \<and> spec_pad w < 4"
  by (simp add: spec_pad_def)

declare row_loop.simps [simp del] write_rows.simps [simp del]

lemma take3_update:
  "n + 2 < length xs \<Longrightarrow>
   take (n + 3) (xs[n := a, Suc n := b, Suc (Suc n) := c]) = take n xs @ [a, b, c]"
  by (simp add: take_Suc_conv_app_nth numeral_3_eq_3 nth_list_update)

lemma row_loop_result:
  "row_loop bgra off w x row = Inr r \<Longrightarrow> 0 \<le> off \<Longrightarrow> 0 \<le> x \<Longrightarrow> x \<le> w \<Longrightarrow>
   r = take (3 * nat x) row @
       concat (map (\<lambda>i. [bgra ! (nat off + 4 * i), bgra ! (nat off + 4 * i + 1),
                           bgra ! (nat off + 4 * i + 2)]) [nat x..<nat w]) @
       drop (3 * nat w) row"
proof (induction bgra off w x row rule: row_loop.induct)
  case (1 bgra off w x row)
  show ?case
  proof (cases "x < w")
    case False
    with "1.prems" have "x = w" "r = row"
      by (simp_all add: row_loop.simps[of bgra off w x row])
    then show ?thesis by simp
  next
    case True
    let ?ok = "src_ok bgra off (x * 4 + 0) \<and> src_ok bgra off (x * 4 + 1) \<and>
            src_ok bgra off (x * 4 + 2) \<and>
            idx_ok row (x * 3 + 0) \<and> idx_ok row (x * 3 + 1) \<and> idx_ok row (x * 3 + 2)"
    let ?row' = "row[nat (x * 3 + 0) := bgra ! nat (off + (x * 4 + 0)),
                     nat (x * 3 + 1) := bgra ! nat (off + (x * 4 + 1)),
                     nat (x * 3 + 2) := bgra ! nat (off + (x * 4 + 2))]"
    from True "1.prems"(1) have ok: ?ok
      by (simp add: row_loop.simps[of bgra off w x row] split: if_splits)
    with True "1.prems"(1) have rec: "row_loop bgra off w (x + 1) ?row' = Inr r"
      by (simp add: row_loop.simps[of bgra off w x row])
    from "1.prems" True have bounds: "0 \<le> x + 1" "x + 1 \<le> w" by simp_all
    note IH = "1.IH"[OF True ok rec "1.prems"(2) bounds]
    have n1: "nat (x * 3 + 0) = 3 * nat x" "nat (x * 3 + 1) = Suc (3 * nat x)"
      "nat (x * 3 + 2) = Suc (Suc (3 * nat x))"
      using "1.prems"(3) by (simp_all add: nat_add_distrib nat_mult_distrib)
    have n2: "nat (off + (x * 4 + 0)) = nat off + 4 * nat x"
      "nat (off + (x * 4 + 1)) = nat off + 4 * nat x + 1"
      "nat (off + (x * 4 + 2)) = nat off + 4 * nat x + 2"
      using "1.prems"(2,3) by (simp_all add: nat_add_distrib nat_mult_distrib)
    have n3: "3 * nat (x + 1) = 3 * nat x + 3" "nat (x + 1) = Suc (nat x)"
      using "1.prems"(3) by (simp_all add: nat_add_distrib)
    from ok have len: "3 * nat x + 2 < length row"
      using "1.prems"(3) by (simp add: idx_ok_def) linarith
    define B where "B = bgra ! (nat off + 4 * nat x)"
    define G where "G = bgra ! (nat off + 4 * nat x + 1)"
    define R where "R = bgra ! (nat off + 4 * nat x + 2)"
    define row2 where "row2 = row[3 * nat x := B, Suc (3 * nat x) := G, Suc (Suc (3 * nat x)) := R]"
    have row2: "?row' = row2"
      unfolding n1 n2 row2_def B_def G_def R_def ..
    have up: "[nat x..<nat w] = nat x # [Suc (nat x)..<nat w]"
      using True "1.prems"(3) by (simp add: upt_conv_Cons)
    have dr: "drop (3 * nat w) row2 = drop (3 * nat w) row"
      using True "1.prems"(3) by (simp add: row2_def)
    have tk: "take (3 * nat x + 3) row2 = take (3 * nat x) row @ [B, G, R]"
      unfolding row2_def using take3_update[OF len] by simp
    have n4: "3 * Suc (nat x) = 3 * nat x + 3" by simp
    from IH have "r = take (3 * nat x + 3) row2 @
       concat (map (\<lambda>i. [bgra ! (nat off + 4 * i), bgra ! (nat off + 4 * i + 1),
                           bgra ! (nat off + 4 * i + 2)]) [Suc (nat x)..<nat w]) @
       drop (3 * nat w) row2"
      unfolding row2 n3 n4 .
    then show ?thesis
      unfolding dr tk up by (simp add: B_def G_def R_def)
  qed
qed

lemma row_loop_length:
  "row_loop bgra off w x row = Inr r \<Longrightarrow> length r = length row"
proof (induction bgra off w x row rule: row_loop.induct)
  case (1 bgra off w x row)
  show ?case
  proof (cases "x < w")
    case False
    with "1.prems" show ?thesis by (simp add: row_loop.simps[of bgra off w x row])
  next
    case True
    from True "1.prems"(1) have ok: "src_ok bgra off (x * 4 + 0) \<and> src_ok bgra off (x * 4 + 1) \<and>
            src_ok bgra off (x * 4 + 2) \<and>
            idx_ok row (x * 3 + 0) \<and> idx_ok row (x * 3 + 1) \<and> idx_ok row (x * 3 + 2)"
      by (simp add: row_loop.simps[of bgra off w x row] split: if_splits)
    with True "1.prems"(1) have rec: "row_loop bgra off w (x + 1) (row[nat (x * 3 + 0) := bgra ! nat (off + (x * 4 + 0)),
                     nat (x * 3 + 1) := bgra ! nat (off + (x * 4 + 1)),
                     nat (x * 3 + 2) := bgra ! nat (off + (x * 4 + 2))]) = Inr r"
      by (simp add: row_loop.simps[of bgra off w x row])
    from "1.IH"[OF True ok rec] show ?thesis by simp
  qed
qed

lemma length_concat_const:
  "(\<And>x. x \<in> set xs \<Longrightarrow> length (f x) = c) \<Longrightarrow> length (concat (map f xs)) = c * length xs"
  by (induction xs) simp_all

lemma length_spec_bmp_row:
  "0 \<le> w \<Longrightarrow> length (spec_bmp_row bgra w y) = nat (3 * w + spec_pad w)"
  using spec_pad_range[of w]
  by (simp add: spec_bmp_row_def length_concat_const[where c = 3] nat_add_distrib nat_mult_distrib)

lemma write_rows_result:
  "write_rows bgra w h y row out = Inr r \<Longrightarrow> 0 < w \<Longrightarrow> 0 \<le> y \<Longrightarrow> y \<le> h \<Longrightarrow>
   length row = nat (3 * w + spec_pad w) \<Longrightarrow>
   r = out @ concat (map (spec_bmp_row bgra w) [nat y..<nat h])"
proof (induction bgra w h y row out rule: write_rows.induct)
  case (1 bgra w h y row out)
  show ?case
  proof (cases "y < h")
    case False
    with "1.prems" show ?thesis by (simp add: write_rows.simps[of bgra w h y row out])
  next
    case True
    note ws = write_rows.simps[of bgra w h y row out]
    from "1.prems"(2) have pad: "bmp_pad w = spec_pad w" by (simp add: bmp_pad_spec)
    note pr = spec_pad_range[of w]
    from True "1.prems"(1) have ii: "in_int (y * w) \<and> in_int (y * w * 4)"
      by (simp add: ws split: if_splits)
    with True "1.prems"(1) obtain row1 where
      rl: "row_loop bgra (y * w * 4) w 0 row = Inr row1"
      by (auto simp: ws split: sum.splits)
    with True ii "1.prems"(1) obtain row2 where
      ms: "(if bmp_pad w \<noteq> 0 then memset_row row1 (bmp_stride w) (bmp_pad w) else Inr row1) =
           Inr row2"
      by (auto simp: ws split: sum.splits)
    from True ii rl ms "1.prems"(1) have rec:
      "write_rows bgra w h (y + 1) row2 (out @ take (nat (bmp_stride w + bmp_pad w)) row2) = Inr r"
      by (simp add: ws)
    define pix where "pix = concat (map (\<lambda>i. [bgra ! (nat (y * w * 4) + 4 * i),
        bgra ! (nat (y * w * 4) + 4 * i + 1), bgra ! (nat (y * w * 4) + 4 * i + 2)]) [0..<nat w])"
    have off: "0 \<le> y * w * 4" using "1.prems"(2,3) by simp
    from row_loop_result[OF rl off] "1.prems"(2)
    have row1: "row1 = pix @ drop (3 * nat w) row" by (simp add: pix_def)
    have lpix: "length pix = 3 * nat w"
      by (simp add: pix_def length_concat_const[where c = 3])
    have lrow: "length row = 3 * nat w + nat (spec_pad w)"
      using "1.prems"(2,5) pr by (simp add: nat_add_distrib nat_mult_distrib)
    have lrow1: "length row1 = 3 * nat w + nat (spec_pad w)"
      using row_loop_length[OF rl] lrow by simp
    have st: "nat (bmp_stride w) = 3 * nat w"
      using "1.prems"(2) by (simp add: bmp_stride_def nat_mult_distrib)
    have row2_eq: "row2 = pix @ replicate (nat (spec_pad w)) 0"
    proof (cases "spec_pad w = 0")
      case True
      with lrow row1 ms show ?thesis by (simp add: pad)
    next
      case False
      have "take (3 * nat w) row1 = pix" using row1 lpix by simp
      moreover have "drop (3 * nat w + nat (spec_pad w)) row1 = []" using lrow1 by simp
      ultimately show ?thesis using False ms
        by (auto simp: pad memset_row_def st split: if_splits)
    qed
    have idx: "nat (y * w * 4) + 4 * i = 4 * (nat y * nat w + i)" for i
      using "1.prems"(2,3) by (simp add: nat_mult_distrib)
    have spec: "row2 = spec_bmp_row bgra w (nat y)"
      unfolding row2_eq spec_bmp_row_def pix_def idx by simp
    have l2: "length row2 = nat (3 * w + spec_pad w)"
      using "1.prems"(2) by (simp add: spec length_spec_bmp_row)
    have tk: "take (nat (bmp_stride w + bmp_pad w)) row2 = row2"
      using l2 by (simp add: pad bmp_stride_def mult.commute)
    from "1.prems" True have b: "0 \<le> y + 1" "y + 1 \<le> h" by simp_all
    have "r = (out @ take (nat (bmp_stride w + bmp_pad w)) row2) @
             concat (map (spec_bmp_row bgra w) [nat (y + 1)..<nat h])"
      using "1.IH"[OF True _ rl ms rec "1.prems"(2) b l2] ii by simp
    moreover have "[nat y..<nat h] = nat y # [nat (y + 1)..<nat h]"
      using True "1.prems"(3) by (simp add: upt_conv_Cons nat_add_distrib)
    ultimately show ?thesis unfolding tk by (simp add: spec)
  qed
qed

lemma length_fh_bytes: "length (fh_bytes fh) = 14"
  by (simp add: fh_bytes_def le16_def le32_def)

lemma length_ih_bytes: "length (ih_bytes ih) = 40"
  by (simp add: ih_bytes_def le16_def le32_def)

lemma uint_bfSize:
  assumes "0 \<le> bmp_dataSize w h" and "in_int (bmp_dataSize w h)"
  shows "uint (bfSize (bmp_file_header w h)) = 54 + bmp_dataSize w h"
proof -
  have "(54 :: 32 word) + word_of_int (bmp_dataSize w h) = word_of_int (54 + bmp_dataSize w h)"
    by simp
  then have "uint (bfSize (bmp_file_header w h)) = take_bit 32 (54 + bmp_dataSize w h)"
    unfolding bmp_file_header_def by (simp only: uint_word_of_int_eq BITMAPFILEHEADER.simps
        len_bit0 len_num1 numeral_plus_numeral semiring_norm)
  also have "\<dots> = 54 + bmp_dataSize w h"
    using assms by (intro take_bit_int_eq_self) (simp_all add: in_int_def)
  finally show ?thesis .
qed

lemma sint_word_of_int_in_int:
  "in_int x \<Longrightarrow> sint (word_of_int x :: 32 word) = x"
  by (simp add: sint_sbintrunc' in_int_def signed_take_bit_int_eq_self)

lemma spec_pad_mod: "spec_pad w = w mod 4"
  unfolding spec_pad_def by presburger

lemma row_loop_succeeds:
  "0 \<le> off \<Longrightarrow> 0 \<le> x \<Longrightarrow> off + 4 * w \<le> int (length bgra) \<Longrightarrow> (w - 1) * 4 + 2 < 2 ^ 31 \<Longrightarrow>
   3 * w \<le> int (length row) \<Longrightarrow> \<exists>r. row_loop bgra off w x row = Inr r"
proof (induction bgra off w x row rule: row_loop.induct)
  case (1 bgra off w x row)
  show ?case
  proof (cases "x < w")
    case False
    then show ?thesis by (simp add: row_loop.simps[of bgra off w x row])
  next
    case True
    with "1.prems" have ok: "src_ok bgra off (x * 4 + 0) \<and> src_ok bgra off (x * 4 + 1) \<and>
            src_ok bgra off (x * 4 + 2) \<and>
            idx_ok row (x * 3 + 0) \<and> idx_ok row (x * 3 + 1) \<and> idx_ok row (x * 3 + 2)"
      by (simp add: idx_ok_def src_ok_def in_int_def)
    from "1.prems" have "0 \<le> x + 1" by simp
    from "1.IH"[OF True ok "1.prems"(1) this "1.prems"(3,4)] "1.prems"(5)
    obtain r where "row_loop bgra off w (x + 1)
                (row[nat (x * 3 + 0) := bgra ! nat (off + (x * 4 + 0)),
                     nat (x * 3 + 1) := bgra ! nat (off + (x * 4 + 1)),
                     nat (x * 3 + 2) := bgra ! nat (off + (x * 4 + 2))]) = Inr r"
      by auto
    with True ok show ?thesis by (simp add: row_loop.simps[of bgra off w x row])
  qed
qed

lemma write_rows_succeeds:
  "0 < w \<Longrightarrow> 0 \<le> y \<Longrightarrow> 4 * w * h \<le> int (length bgra) \<Longrightarrow> (h - 1) * w * 4 < 2 ^ 31 \<Longrightarrow>
   (w - 1) * 4 + 2 < 2 ^ 31 \<Longrightarrow>
   length row = nat (3 * w + spec_pad w) \<Longrightarrow> \<exists>r. write_rows bgra w h y row out = Inr r"
proof (induction bgra w h y row out rule: write_rows.induct)
  case (1 bgra w h y row out)
  note ws = write_rows.simps[of bgra w h y row out]
  show ?case
  proof (cases "y < h")
    case False
    then show ?thesis by (simp add: ws)
  next
    case True
    from "1.prems"(1) have pad: "bmp_pad w = spec_pad w" by (simp add: bmp_pad_spec)
    note pr = spec_pad_range[of w]
    from True have yw: "y * w \<le> (h - 1) * w"
      using "1.prems"(1) by (intro mult_right_mono) simp_all
    from True have "(y + 1) * w \<le> h * w"
      using "1.prems"(1) by (intro mult_right_mono) simp_all
    then have le: "y * w * 4 + 4 * w \<le> 4 * w * h" by (simp add: algebra_simps)
    have yw0: "0 \<le> y * w" using "1.prems"(1,2) by simp
    have off: "0 \<le> y * w * 4" using "1.prems"(1,2) by simp
    from yw yw0 "1.prems"(4) have ii: "in_int (y * w) \<and> in_int (y * w * 4)"
      unfolding in_int_def by linarith
    have lr: "3 * w \<le> int (length row)" using "1.prems"(1,6) pr by simp
    from le "1.prems"(3) have "y * w * 4 + 4 * w \<le> int (length bgra)" by simp
    from row_loop_succeeds[OF off _ this "1.prems"(5) lr]
    obtain row1 where rl: "row_loop bgra (y * w * 4) w 0 row = Inr row1" by auto
    have l1: "length row1 = nat (3 * w + spec_pad w)"
      using row_loop_length[OF rl] "1.prems"(6) by simp
    have fit: "0 \<le> bmp_stride w \<and> 0 \<le> bmp_pad w \<and> bmp_stride w + bmp_pad w \<le> int (length row1)"
      using l1 "1.prems"(1) pr by (simp add: pad bmp_stride_def mult.commute)
    have "\<exists>row2. (if bmp_pad w \<noteq> 0 then memset_row row1 (bmp_stride w) (bmp_pad w)
                   else Inr row1) = Inr row2 \<and> length row2 = length row1"
    proof (cases "bmp_pad w = 0")
      case True
      then show ?thesis by simp
    next
      case False
      from fit have "nat (bmp_stride w) + nat (bmp_pad w) \<le> length row1" by linarith
      with False fit show ?thesis by (simp add: memset_row_def)
    qed
    then obtain row2 where
      ms: "(if bmp_pad w \<noteq> 0 then memset_row row1 (bmp_stride w) (bmp_pad w) else Inr row1) =
           Inr row2"
      and l2: "length row2 = nat (3 * w + spec_pad w)"
      using l1 by auto
    from "1.prems" have "0 \<le> y + 1" by simp
    from "1.IH"[OF True _ rl ms "1.prems"(1) this "1.prems"(3,4,5) l2] ii
    obtain r where "write_rows bgra w h (y + 1) row2
        (out @ take (nat (bmp_stride w + bmp_pad w)) row2) = Inr r" by auto
    with True ii rl ms show ?thesis by (simp add: ws)
  qed
qed

lemma BmpWriter_write_succeeds:
  assumes "0 < w" and "0 < h" and "length bgra = nat (4 * w * h)" and "ints_fit w h"
  shows "\<exists>f. BmpWriter_write True lim bgra w h = Inr (Some f)"
proof -
  from assms(1) have pad: "bmp_pad w = spec_pad w" by (simp add: bmp_pad_spec)
  note pr = spec_pad_range[of w]
  from assms(4) have fit: "(3 * w + spec_pad w) * h < 2 ^ 31" "(h - 1) * w * 4 < 2 ^ 31"
    "(w - 1) * 4 + 2 < 2 ^ 31"
    by (simp_all add: ints_fit_def in_int_def bmp_dataSize_def bmp_stride_def pad mult.commute)
  have "(3 * w + spec_pad w) * 1 \<le> (3 * w + spec_pad w) * h"
    using assms(1,2) pr by (intro mult_left_mono) simp_all
  then have sp: "3 * w + spec_pad w \<le> (3 * w + spec_pad w) * h" by simp
  have "1 * h \<le> (3 * w + spec_pad w) * h"
    using assms(1,2) pr by (intro mult_right_mono) simp_all
  then have hh: "h \<le> (3 * w + spec_pad w) * h" by simp
  have ds0: "0 \<le> (3 * w + spec_pad w) * h" using assms(1,2) pr by simp
  have sm: "0 \<le> 3 * w smod 4" "3 * w smod 4 < 4"
    using smod_int_compares(1,2)[of "3 * w" 4] assms(1) by simp_all
  have big: "(4::int) < 2 ^ 31" by simp
  have chk: "in_int (- h)" "in_int (bmp_stride w)"
    "in_int (4 - (bmp_stride w smod 4))"
    "in_int (bmp_stride w + bmp_pad w)" "in_int (bmp_dataSize w h)"
    unfolding in_int_def bmp_stride_def bmp_dataSize_def pad mult.commute[of w 3]
    using fit(1) sp hh ds0 assms(1,2) pr sm big by linarith+
  have nn: "\<not> bmp_stride w + bmp_pad w < 0"
    using assms(1) pr by (simp add: pad bmp_stride_def)
  from write_rows_succeeds[OF assms(1) _ _ fit(2,3), of 0 bgra
      "replicate (nat (bmp_stride w + bmp_pad w)) 0"
      "fh_bytes (bmp_file_header w h) @ ih_bytes (bmp_info_header w h)"] assms
  obtain r where "write_rows bgra w h 0 (replicate (nat (bmp_stride w + bmp_pad w)) 0)
       (fh_bytes (bmp_file_header w h) @ ih_bytes (bmp_info_header w h)) = Inr r"
    by (auto simp: pad bmp_stride_def mult.commute)
  with chk nn show ?thesis by (simp add: BmpWriter_write_def)
qed

lemma large_frame_written:
  assumes "length bgra = nat (4 * (2 ^ 28 + 1) * 2)"
  shows "\<exists>f. BmpWriter_write True lim bgra (2 ^ 28 + 1) 2 = Inr (Some f)"
proof -
  have "ints_fit (2 ^ 28 + 1) 2"
    by (simp add: ints_fit_def in_int_def bmp_dataSize_def bmp_stride_def bmp_pad_spec
        spec_pad_def)
  from BmpWriter_write_succeeds[OF _ _ assms this] show ?thesis by simp
qed

lemma demo_bmp_written:
  "BmpWriter_write True None (tex_pixels (demo_frame 7)) 2 1 =
     Inr (Some \<lparr>to_fwrite = demo_bmp, on_disk = demo_bmp\<rparr>)"
  by code_simp

lemma BmpWriter_write_bytes:
  assumes "0 < w" and "0 < h"
    and "BmpWriter_write ok lim bgra w h = Inr (Some f)"
  shows "to_fwrite f = fh_bytes (bmp_file_header w h) @ ih_bytes (bmp_info_header w h) @
                 concat (map (spec_bmp_row bgra w) [0..<nat h]) \<and>
         on_disk f = file_takes lim (to_fwrite f) \<and>
         int (length (to_fwrite f)) = 54 + (3 * w + spec_pad w) * h \<and>
         uint (bfSize (bmp_file_header w h)) = int (length (to_fwrite f)) \<and>
         bfOffBits (bmp_file_header w h) = 54 \<and>
         biBitCount (bmp_info_header w h) = 24 \<and>
         biCompression (bmp_info_header w h) = 0 \<and>
         sint (biWidth (bmp_info_header w h)) = w \<and>
         sint (biHeight (bmp_info_header w h)) = - h"
proof -
  from assms(1) have pad: "bmp_pad w = spec_pad w" by (simp add: bmp_pad_spec)
  note pr = spec_pad_range[of w]
  from assms(3) have chk: "in_int (- h)" "in_int (bmp_stride w)" "in_int (bmp_dataSize w h)"
    by (simp_all add: BmpWriter_write_def split: if_splits)
  have nn: "\<not> bmp_stride w + bmp_pad w < 0"
    using assms(1) pr by (simp add: pad bmp_stride_def)
  from assms(3) chk nn have wr:
    "write_rows bgra w h 0 (replicate (nat (bmp_stride w + bmp_pad w)) 0)
       (fh_bytes (bmp_file_header w h) @ ih_bytes (bmp_info_header w h)) = Inr (to_fwrite f)"
    and od: "on_disk f = file_takes lim (to_fwrite f)"
    by (auto simp: BmpWriter_write_def split: if_splits sum.splits)
  have len0: "length (replicate (nat (bmp_stride w + bmp_pad w)) (0::byte)) =
      nat (3 * w + spec_pad w)"
    by (simp add: pad bmp_stride_def mult.commute)
  from write_rows_result[OF wr assms(1) _ _ len0] assms(2)
  have bytes: "to_fwrite f = fh_bytes (bmp_file_header w h) @ ih_bytes (bmp_info_header w h) @
                 concat (map (spec_bmp_row bgra w) [0..<nat h])"
    by simp
  have "length (concat (map (spec_bmp_row bgra w) [0..<nat h])) = nat (3 * w + spec_pad w) * nat h"
    using assms(1) by (simp add: length_concat_const[where c = "nat (3 * w + spec_pad w)"]
        length_spec_bmp_row)
  then have len: "int (length (to_fwrite f)) = 54 + (3 * w + spec_pad w) * h"
    using assms(1,2) pr by (simp add: bytes length_fh_bytes length_ih_bytes)
  have ds: "bmp_dataSize w h = (3 * w + spec_pad w) * h"
    by (simp add: bmp_dataSize_def pad bmp_stride_def mult.commute)
  have "0 \<le> bmp_dataSize w h" using assms(1,2) pr by (simp add: ds)
  from uint_bfSize[OF this chk(3)]
  have bf: "uint (bfSize (bmp_file_header w h)) = int (length (to_fwrite f))"
    by (simp add: len ds)
  have wi: "in_int w" using chk(2) assms(1) by (simp add: in_int_def bmp_stride_def)
  have hdr: "bfOffBits (bmp_file_header w h) = 54" "biBitCount (bmp_info_header w h) = 24"
    "biCompression (bmp_info_header w h) = 0"
    by (simp_all add: bmp_file_header_def bmp_info_header_def BI_RGB_def)
  have sw: "sint (biWidth (bmp_info_header w h)) = w" "sint (biHeight (bmp_info_header w h)) = - h"
    using sint_word_of_int_in_int[OF wi] sint_word_of_int_in_int[OF chk(1)]
    by (simp_all add: bmp_info_header_def)
  from bytes od len bf hdr sw show ?thesis by blast
qed

lemma BmpWriter_write_needs_open:
  "BmpWriter_write False lim bgra w h \<noteq> Inr (Some f)"
  by (simp add: BmpWriter_write_def)

text \<open>
  C10. Let the width and the height be positive and the buffer have \<open>4 * w * h\<close> bytes.
  Whenever the file can be opened and the \<^verbatim>\<open>int\<close>s the function computes fit,
  \<^verbatim>\<open>BmpWriter::write\<close> returns \<^verbatim>\<open>true\<close>. Every call that returns \<^verbatim>\<open>true\<close> has
  passed to \<^verbatim>\<open>fwrite\<close> the two headers followed by the rows of the specification:
  \<open>54 + (3 * w + pad) * h\<close> bytes, which is the value of \<^verbatim>\<open>bfSize\<close>, and these bytes
  are the file when no write fails; the pixel data starts at offset 54; the header
  declares 24 bits per pixel, no compression, the width \<open>w\<close> and the height \<open>- h\<close>.
\<close>

theorem BmpWriter_write_layout:
  assumes "0 < w" and "0 < h" and "length bgra = nat (4 * w * h)"
  shows "(ints_fit w h \<longrightarrow> (\<exists>f. BmpWriter_write True lim bgra w h = Inr (Some f))) \<and>
         (\<forall>f. BmpWriter_write ok lim bgra w h = Inr (Some f) \<longrightarrow>
            to_fwrite f = fh_bytes (bmp_file_header w h) @ ih_bytes (bmp_info_header w h) @
                 concat (map (spec_bmp_row bgra w) [0..<nat h]) \<and>
            on_disk f = file_takes lim (to_fwrite f) \<and>
            (lim = None \<longrightarrow> on_disk f = to_fwrite f) \<and>
            int (length (to_fwrite f)) = 54 + (3 * w + spec_pad w) * h \<and>
            uint (bfSize (bmp_file_header w h)) = int (length (to_fwrite f)) \<and>
            bfOffBits (bmp_file_header w h) = 54 \<and>
            biBitCount (bmp_info_header w h) = 24 \<and>
            biCompression (bmp_info_header w h) = 0 \<and>
            sint (biWidth (bmp_info_header w h)) = w \<and>
            sint (biHeight (bmp_info_header w h)) = - h)"
proof (intro conjI allI impI)
  assume "ints_fit w h"
  from BmpWriter_write_succeeds[OF assms this]
  show "\<exists>f. BmpWriter_write True lim bgra w h = Inr (Some f)" .
next
  fix f assume a: "BmpWriter_write ok lim bgra w h = Inr (Some f)"
  note b = BmpWriter_write_bytes[OF assms(1,2) a]
  from b show "to_fwrite f = fh_bytes (bmp_file_header w h) @ ih_bytes (bmp_info_header w h) @
                 concat (map (spec_bmp_row bgra w) [0..<nat h])" by blast
  from b show "on_disk f = file_takes lim (to_fwrite f)" by blast
  from b show "int (length (to_fwrite f)) = 54 + (3 * w + spec_pad w) * h" by blast
  from b show "uint (bfSize (bmp_file_header w h)) = int (length (to_fwrite f))" by blast
  from b show "bfOffBits (bmp_file_header w h) = 54" by blast
  from b show "biBitCount (bmp_info_header w h) = 24" by blast
  from b show "biCompression (bmp_info_header w h) = 0" by blast
  from b show "sint (biWidth (bmp_info_header w h)) = w" by blast
  from b show "sint (biHeight (bmp_info_header w h)) = - h" by blast
  { assume "lim = None"
    with b show "on_disk f = to_fwrite f" by (simp add: file_takes_def) }
qed

theorem BmpWriter_write_layout_witness:
  "(0::int) < 2 \<and> (0::int) < 1 \<and> length (tex_pixels (demo_frame 7)) = nat (4 * 2 * 1) \<and>
   ints_fit 2 1 \<and>
   BmpWriter_write True None (tex_pixels (demo_frame 7)) 2 1 =
     Inr (Some \<lparr>to_fwrite = demo_bmp, on_disk = demo_bmp\<rparr>) \<and>
   int (length demo_bmp) = 54 + (3 * 2 + spec_pad 2) * 1 \<and>
   uint (bfSize (bmp_file_header 2 1)) = int (length demo_bmp) \<and>
   sint (biHeight (bmp_info_header 2 1)) = - 1"
proof -
  have len: "length (tex_pixels (demo_frame 7)) = nat (4 * 2 * 1)"
    by (simp add: demo_frame_def)
  have fit: "ints_fit 2 1"
    by (simp add: ints_fit_def in_int_def bmp_dataSize_def bmp_stride_def bmp_pad_spec
        spec_pad_def)
  from BmpWriter_write_layout [OF _ _ len, where ok = True and lim = None] len fit
    demo_bmp_written
  show ?thesis by simp
qed

subsection \<open>Writing and renaming the file\<close>

lemma valid_dim_sint:
  assumes "valid_dim d"
  shows "sint d = int (unat d) \<and> 0 < int (unat d) \<and> int (unat d) \<le> 16384"
proof -
  from assms have b: "1 \<le> unat d" "unat d \<le> 16384"
    by (simp_all add: valid_dim_def D3D11_REQ_TEXTURE2D_U_OR_V_DIMENSION_def)
  then have bu: "1 \<le> uint d" "uint d \<le> 16384"
    unfolding uint_nat by linarith+
  have "sint d = signed_take_bit 31 (uint d)" by (simp add: sint_uint)
  also have "\<dots> = uint d"
    using bu by (intro signed_take_bit_int_eq_self) simp_all
  finally show ?thesis using bu by simp
qed

lemma valid_dims_fit:
  assumes "valid_dim wd" and "valid_dim ht"
  shows "ints_fit (sint wd) (sint ht)"
proof -
  note w = valid_dim_sint[OF assms(1)] and h = valid_dim_sint[OF assms(2)]
  define W where "W = sint wd"
  define H where "H = sint ht"
  from w h have b: "0 < W" "W \<le> 16384" "0 < H" "H \<le> 16384" by (simp_all add: W_def H_def)
  note pr = spec_pad_range[of W]
  have pw: "spec_pad W \<le> W" using b(1) by (simp add: spec_pad_mod zmod_le_nonneg_dividend)
  define P where "P = (3 * W + spec_pad W) * H"
  define R where "R = (H - 1) * W"
  have "P \<le> (4 * 16384) * 16384"
    unfolding P_def using b pw pr by (intro mult_mono) simp_all
  moreover have "0 \<le> P" unfolding P_def using b pr by simp
  ultimately have p: "in_int P" by (simp add: in_int_def)
  have "R \<le> 16384 * 16384" unfolding R_def using b by (intro mult_mono) simp_all
  moreover have "0 \<le> R" unfolding R_def using b by simp
  ultimately have r: "in_int (R * 4)" by (simp add: in_int_def)
  have "in_int ((W - 1) * 4 + 2)" using b by (simp add: in_int_def)
  with p r have "in_int ((3 * W + spec_pad W) * H)" "in_int ((H - 1) * W * 4)"
    "in_int ((W - 1) * 4 + 2)" by (simp_all add: P_def R_def)
  then show ?thesis
    using b(1) by (simp add: ints_fit_def bmp_dataSize_def bmp_stride_def bmp_pad_spec
        mult.commute W_def H_def)
qed

lemma file_written_eq:
  "f = \<lparr>to_fwrite = to_fwrite f, on_disk = on_disk f\<rparr>" for f :: file_written
  by (cases f) simp

lemma valid_dims_write:
  assumes "valid_dim wd" and "valid_dim ht" and "length bgra = 4 * unat wd * unat ht"
  shows "\<exists>bytes. BmpWriter_write True lim bgra (sint wd) (sint ht) =
           Inr (Some \<lparr>to_fwrite = bytes, on_disk = file_takes lim bytes\<rparr>)"
proof -
  note w = valid_dim_sint[OF assms(1)] and h = valid_dim_sint[OF assms(2)]
  have len: "length bgra = nat (4 * sint wd * sint ht)"
    using assms(3) w h by (simp add: nat_mult_distrib)
  from w h have pos: "0 < sint wd" "0 < sint ht" by simp_all
  from BmpWriter_write_succeeds[OF pos len valid_dims_fit[OF assms(1,2)], of lim]
  obtain f where f: "BmpWriter_write True lim bgra (sint wd) (sint ht) = Inr (Some f)" by blast
  from BmpWriter_write_bytes[OF pos f] have "on_disk f = file_takes lim (to_fwrite f)" by blast
  with f file_written_eq[of f] show ?thesis by metis
qed

lemma write_not_opened:
  "BmpWriter_write True lim bgra w h = Inr (Some f) \<Longrightarrow>
   BmpWriter_write False lim' bgra w h = Inr None"
  by (simp add: BmpWriter_write_def split: if_splits)

lemma fs_rename_written:
  "fs_rename ok tmp out (fs_write tmp bytes fs) =
     (if ok then (True, ((fs(tmp := None))(out \<mapsto> bytes))) else (False, fs(tmp \<mapsto> bytes)))"
  by (simp add: fs_rename_def fs_write_def)

lemma second_rename:
  "tmp \<noteq> out \<Longrightarrow>
   snd (fs_rename True tmp out (fs_remove r out (fs(tmp \<mapsto> bytes)))) =
     (fs(tmp := None))(out \<mapsto> bytes)"
  by (auto simp: fs_rename_def fs_remove_def fun_eq_iff)

lemma file_effect_log_line [simp]: "filter file_effect (log_line ok ev) = []"
  by (simp add: log_line_def file_effect_def)

lemma file_effect_simps [simp]:
  "file_effect (File_fopen p)" "file_effect (File_fwrite p b)" "file_effect (File_fclose p)"
  "file_effect (File_rename p q)" "file_effect (File_remove p)"
  by (simp_all add: file_effect_def)

lemma stderr_log_line:
  "Stderr_fputs ev \<in> set (log_line ok ev)"
  by (simp add: log_line_def)

lemma rename_refused:
  "snd (fs_rename False tmp out fs) = fs"
  by (simp add: fs_rename_def split: option.splits)

lemma write_and_rename_protocol:
  assumes "valid_dim wd" and "valid_dim ht" and "length bgra = 4 * unat wd * unat ht"
  shows "\<exists>es s'. write_and_rename env bgra wd ht outPath s = Inr (es, s') \<and>
           (if \<not> fopen_ok env
            then filter file_effect es = [File_fopen (outPath @ ''.pending'')] \<and> s' = s
            else \<exists>bytes.
                   BmpWriter_write True (room env) bgra (sint wd) (sint ht) =
                     Inr (Some \<lparr>to_fwrite = bytes, on_disk = file_takes (room env) bytes\<rparr>) \<and>
                   (if rename_ok env
                    then filter file_effect es =
                           [File_fopen (outPath @ ''.pending''),
                            File_fwrite (outPath @ ''.pending'') bytes,
                            File_fclose (outPath @ ''.pending''),
                            File_rename (outPath @ ''.pending'') outPath] \<and>
                         files s' = ((files s)(outPath @ ''.pending'' := None))
                                      (outPath \<mapsto> file_takes (room env) bytes)
                    else filter file_effect es =
                           [File_fopen (outPath @ ''.pending''),
                            File_fwrite (outPath @ ''.pending'') bytes,
                            File_fclose (outPath @ ''.pending''),
                            File_rename (outPath @ ''.pending'') outPath,
                            File_remove outPath,
                            File_rename (outPath @ ''.pending'') outPath] \<and>
                         files s' =
                           (if rename2_ok env
                            then ((files s)(outPath @ ''.pending'' := None))
                                   (outPath \<mapsto> file_takes (room env) bytes)
                            else fs_remove (remove_ok env) outPath
                                   ((files s)(outPath @ ''.pending'' \<mapsto>
                                      file_takes (room env) bytes)))))"
proof -
  from valid_dims_write[OF assms, of "room env"] obtain bytes where
    wr: "BmpWriter_write True (room env) bgra (sint wd) (sint ht) =
           Inr (Some \<lparr>to_fwrite = bytes, on_disk = file_takes (room env) bytes\<rparr>)" by blast
  show ?thesis
  proof (cases "fopen_ok env")
    case False
    with write_not_opened[OF wr, of "room env"] show ?thesis
      by (simp add: write_and_rename_def)
  next
    case True
    have ne: "outPath @ ''.pending'' \<noteq> outPath" by simp
    show ?thesis
    proof (cases "rename_ok env")
      case r: True
      with True wr show ?thesis
        by (simp add: write_and_rename_def Let_def fs_rename_written)
    next
      case r: False
      show ?thesis
      proof (cases "rename2_ok env")
        case True
        with r \<open>fopen_ok env\<close> wr
          second_rename[OF ne, of "remove_ok env" "files s" "file_takes (room env) bytes"]
        show ?thesis
          by (simp add: write_and_rename_def Let_def fs_rename_written)
      next
        case False
        with r \<open>fopen_ok env\<close> wr show ?thesis
          by (simp add: write_and_rename_def Let_def fs_rename_written rename_refused)
      qed
    qed
  qed
qed

lemma demo_bmp_short:
  "BmpWriter_write True (Some 0) (tex_pixels (demo_frame 7)) 2 1 =
     Inr (Some \<lparr>to_fwrite = demo_bmp, on_disk = []\<rparr>)"
  by code_simp

lemma write_and_rename_full_disk:
  "\<exists>es s'. write_and_rename full_disk_env (tex_pixels (demo_frame 7)) 2 1 ''f.bmp''
              demo_session = Inr (es, s') \<and>
           filter file_effect es =
             [File_fopen ''f.bmp.pending'', File_fwrite ''f.bmp.pending'' demo_bmp,
              File_fclose ''f.bmp.pending'', File_rename ''f.bmp.pending'' ''f.bmp''] \<and>
           files s' ''f.bmp'' = Some [] \<and> files s' ''f.bmp.pending'' = None \<and>
           Stderr_fputs Frame_written \<in> set es"
  using demo_bmp_short
  by (simp add: write_and_rename_def Let_def fs_rename_written demo_save_env_def
      full_disk_env_def stderr_log_line)

text \<open>
  C4. The code fails what the claim says of a failed write. Take a session of one frame
  and one tick whose save opens its temporary file on a full disk, so that every
  \<^verbatim>\<open>fwrite\<close> of the encoder fails and the file stays empty. \<^verbatim>\<open>BmpWriter::write\<close> does
  not read the results of \<^verbatim>\<open>fwrite\<close> and \<^verbatim>\<open>fclose\<close> and returns \<^verbatim>\<open>true\<close>, so the save
  is not abandoned: it renames the temporary file, which leaves an empty file under the
  final name of the tick and none under the temporary name, and logs \<^verbatim>\<open>frame_written\<close>.
\<close>

theorem failed_write_is_renamed:
  "demo_path = path_append ''frames'' (frame_name demo_clock 0) \<and>
   map_sum id (filter file_effect \<circ> fst) full_disk_run =
     Inr [File_fopen (demo_path @ ''.pending''),
          File_fwrite (demo_path @ ''.pending'') demo_bmp,
          File_fclose (demo_path @ ''.pending''),
          File_rename (demo_path @ ''.pending'') demo_path] \<and>
   files (snd (projr full_disk_run)) demo_path = Some [] \<and>
   files (snd (projr full_disk_run)) (demo_path @ ''.pending'') = None \<and>
   Stderr_fputs Frame_written \<in> set (fst (projr full_disk_run))"
  by code_simp

subsection \<open>The latest frame is the one saved\<close>

lemma concat_take_drop:
  "k * n \<le> length p \<Longrightarrow> concat (map (\<lambda>y. take n (drop (y * n) p)) [0..<k]) = take (k * n) p"
proof (induction k)
  case 0
  then show ?case by simp
next
  case (Suc k)
  then have "concat (map (\<lambda>y. take n (drop (y * n) p)) [0..<k]) = take (k * n) p" by simp
  moreover have "take (Suc k * n) p = take (k * n) p @ take n (drop (k * n) p)"
    using take_add[of "k * n" n p] by (simp add: add.commute)
  ultimately show ?case by simp
qed

lemma copy_rows_Map_rows:
  assumes "wf_frame wd ht f"
  shows "copy_rows wd ht (Map_rows pitch f) = tex_pixels f"
proof -
  let ?n = "4 * unat wd" and ?k = "unat ht"
  from assms have w: "tex_w f = wd" "tex_h f = ht" and len: "length (tex_pixels f) = ?k * ?n"
    by (simp_all add: wf_frame_def)
  have "take ?n (Map_rows pitch f ! y) = take ?n (drop (y * ?n) (tex_pixels f))" if "y < ?k" for y
  proof -
    have "(y + 1) * ?n \<le> ?k * ?n" using that by (intro mult_right_mono) simp_all
    then have "?n \<le> length (drop (y * ?n) (tex_pixels f))" using len by simp
    with that show ?thesis by (simp add: Map_rows_def w)
  qed
  then have "copy_rows wd ht (Map_rows pitch f) =
      concat (map (\<lambda>y. take ?n (drop (y * ?n) (tex_pixels f))) [0..<?k])"
    unfolding copy_rows_def by (intro arg_cong[where f = concat] map_cong) simp_all
  also have "\<dots> = tex_pixels f" using len by (simp add: concat_take_drop)
  finally show ?thesis .
qed

lemma texture_eq:
  "tex_w tx = tex_w f \<Longrightarrow> tex_h tx = tex_h f \<Longrightarrow> tx\<lparr>tex_pixels := tex_pixels f\<rparr> = (f :: texture)"
  by (cases tx, cases f) simp

lemma holds_frame_inv: "holds_frame f s \<Longrightarrow> valid_dim (tex_w f) \<Longrightarrow> valid_dim (tex_h f) \<Longrightarrow> shared_inv s"
  by (auto simp: holds_frame_def shared_inv_def valid_dim_pos split: option.splits)

lemma update_completes:
  assumes "shared_inv s" and "create_ok env" and "valid_dim (tex_w f)" and "valid_dim (tex_h f)"
  shows "\<exists>es s'. update env f s = (es, s') \<and> holds_frame f s' \<and> running s' = running s \<and>
           saverRun s' = saverRun s \<and> saveIdx s' = saveIdx s \<and> files s' = files s \<and>
           loggedProbe s' = loggedProbe s \<and> filter file_effect es = []"
proof (cases "needs_alloc f s")
  case True
  with assms show ?thesis
    by (simp add: update_def needs_alloc_def CreateTexture2D_def CopyResource_def Let_def
        holds_frame_def logf_def file_effect_def)
next
  case False
  then obtain t where t: "sf_tex (shared s) = Some t"
    and dims: "sf_w (shared s) = tex_w f" "sf_h (shared s) = tex_h f"
    by (auto simp: needs_alloc_def)
  from assms(1) t obtain tx where tx: "textures (d3d s) t = Some tx" "t < next_tex (d3d s)"
    "tex_w tx = sf_w (shared s)" "tex_h tx = sf_h (shared s)"
    by (auto simp: shared_inv_def split: option.splits)
  from False t dims tx show ?thesis
    by (simp add: update_def needs_alloc_def CopyResource_def Let_def holds_frame_def
        texture_eq file_effect_def)
qed

lemma FrameArrived_completes:
  assumes "running s" and "shared_inv s" and "completes env" and "next_frame env = Some f"
    and "valid_dim (tex_w f)" and "valid_dim (tex_h f)"
  shows "\<exists>es s'. FrameArrived env s = (es, s') \<and> holds_frame f s' \<and> running s' \<and>
           saverRun s' = saverRun s \<and> saveIdx s' = saveIdx s \<and> files s' = files s \<and>
           loggedProbe s' = loggedProbe s \<and> filter file_effect es = []"
proof -
  from assms(3) have c: "query_interface_ok env" "get_interface_ok env" "create_ok env"
    by (simp_all add: completes_def)
  have "shared_inv (s\<lparr>frameEvents := frameEvents s + 1\<rparr>)" using assms(2) by simp
  from update_completes[OF this c(3) assms(5,6)] assms(1,4) c show ?thesis
    by (auto simp: FrameArrived_def Let_def logf_def file_effect_def)
qed

lemma run_append:
  "run baseDir (xs @ ys) s =
     (case run baseDir xs s of
        Inl e \<Rightarrow> Inl e
      | Inr (e1, s1) \<Rightarrow>
          (case run baseDir ys s1 of Inl e \<Rightarrow> Inl e | Inr (e2, s2) \<Rightarrow> Inr (e1 @ e2, s2)))"
  by (induction xs arbitrary: s) (auto split: sum.splits prod.splits)

lemma run_frames:
  assumes "envs \<noteq> []"
    and "\<forall>env \<in> set envs. completes env \<and> (\<exists>f. next_frame env = Some f \<and> wf_frame wd ht f)"
    and "valid_dim wd" and "valid_dim ht"
    and "next_frame (last envs) = Some latest"
    and "running s" and "shared_inv s"
  shows "\<exists>es s'. run baseDir (map Frame envs) s = Inr (es, s') \<and> holds_frame latest s' \<and>
           running s' \<and> saverRun s' = saverRun s \<and> saveIdx s' = saveIdx s \<and>
           files s' = files s \<and> loggedProbe s' = loggedProbe s \<and> filter file_effect es = []"
  using assms
proof (induction envs arbitrary: s)
  case Nil
  then show ?case by simp
next
  case (Cons env envs)
  from Cons.prems(2) obtain f where c: "completes env" and f: "next_frame env = Some f"
    and wf: "wf_frame wd ht f" by auto
  from wf Cons.prems(3,4) have v: "valid_dim (tex_w f)" "valid_dim (tex_h f)"
    by (simp_all add: wf_frame_def)
  from FrameArrived_completes[OF Cons.prems(6,7) c f v] obtain e1 s1 where
    fa: "FrameArrived env s = (e1, s1)" and h1: "holds_frame f s1" and r1: "running s1"
    and k1: "saverRun s1 = saverRun s" "saveIdx s1 = saveIdx s" "files s1 = files s"
      "loggedProbe s1 = loggedProbe s" "filter file_effect e1 = []"
    by blast
  show ?case
  proof (cases "envs = []")
    case True
    with Cons.prems(5) f have "latest = f" by simp
    with True fa h1 r1 k1 show ?thesis by simp
  next
    case False
    with Cons.prems(5) have l: "next_frame (last envs) = Some latest" by simp
    from Cons.prems(2) have a: "\<forall>env \<in> set envs. completes env \<and>
        (\<exists>f. next_frame env = Some f \<and> wf_frame wd ht f)" by simp
    from Cons.IH[OF False a Cons.prems(3,4) l r1 holds_frame_inv[OF h1 v]]
    obtain e2 s2 where "run baseDir (map Frame envs) s1 = Inr (e2, s2)" "holds_frame latest s2"
      "running s2" "saverRun s2 = saverRun s1" "saveIdx s2 = saveIdx s1" "files s2 = files s1"
      "loggedProbe s2 = loggedProbe s1" "filter file_effect e2 = []"
      by blast
    with fa k1 show ?thesis by simp
  qed
qed

lemma fwrite_effect_log [simp]: "filter fwrite_effect (log_line ok ev) = []"
  by (simp add: log_line_def fwrite_effect_def)

lemma fwrite_effect_probe [simp]: "filter fwrite_effect (probe ok a b) = []"
  by (simp add: probe_def logf_def)

lemma BmpWriter_write_room:
  assumes "BmpWriter_write True lim bgra w h =
             Inr (Some \<lparr>to_fwrite = bytes, on_disk = file_takes lim bytes\<rparr>)"
  shows "BmpWriter_write True lim' bgra w h =
           Inr (Some \<lparr>to_fwrite = bytes, on_disk = file_takes lim' bytes\<rparr>)"
  using assms by (auto simp: BmpWriter_write_def split: if_splits sum.splits)

lemma file_takes_None [simp]: "file_takes None bytes = bytes"
  by (simp add: file_takes_def)

lemma write_and_rename_opened:
  assumes "fopen_ok env"
    and "BmpWriter_write True (room env) bgra (sint wd) (sint ht) = Inr (Some f)"
  shows "\<exists>es s'. write_and_rename env bgra wd ht outPath s = Inr (es, s') \<and>
           filter fwrite_effect es = [File_fwrite (outPath @ ''.pending'') (to_fwrite f)] \<and>
           (rename_ok env \<longrightarrow>
              files s' = ((files s)(outPath @ ''.pending'' := None))(outPath \<mapsto> on_disk f))"
  using assms
  by (cases "rename_ok env")
     (simp_all add: write_and_rename_def Let_def fs_rename_written fwrite_effect_def)

lemma save_staging_to_file_saves:
  assumes "textures (d3d s) t = Some f" and "wf_frame wd ht f" and "valid_dim wd" and "valid_dim ht"
    and "staging_ok env" and "map_ok env" and "fopen_ok env"
  shows "\<exists>es s' bytes. save_staging_to_file env t outPath s = Inr (es, s') \<and>
           BmpWriter_write True None (tex_pixels f) (sint wd) (sint ht) =
             Inr (Some \<lparr>to_fwrite = bytes, on_disk = bytes\<rparr>) \<and>
           filter fwrite_effect es = [File_fwrite (outPath @ ''.pending'') bytes] \<and>
           (rename_ok env \<longrightarrow>
              files s' = ((files s)(outPath @ ''.pending'' := None))
                           (outPath \<mapsto> file_takes (room env) bytes))"
proof -
  from assms(2) have dims: "tex_w f = wd" "tex_h f = ht"
    and len: "length (tex_pixels f) = 4 * unat wd * unat ht"
    by (simp_all add: wf_frame_def)
  from valid_dims_write[OF assms(3,4) len, of "room env"] obtain bytes where
    wr: "BmpWriter_write True (room env) (tex_pixels f) (sint wd) (sint ht) =
           Inr (Some \<lparr>to_fwrite = bytes, on_disk = file_takes (room env) bytes\<rparr>)" by blast
  from BmpWriter_write_room[OF wr, of None] have wn:
    "BmpWriter_write True None (tex_pixels f) (sint wd) (sint ht) =
       Inr (Some \<lparr>to_fwrite = bytes, on_disk = bytes\<rparr>)" by simp
  define s3 where "s3 = s\<lparr>d3d := CopyResource (next_tex (d3d s)) f
      (snd (CreateTexture2D True wd ht (d3d s))), loggedProbe := True\<rparr>"
  from write_and_rename_opened[OF assms(7) wr, of outPath s3] obtain e4 s4 where
    w4: "write_and_rename env (tex_pixels f) wd ht outPath s3 = Inr (e4, s4)"
    and f4: "filter fwrite_effect e4 = [File_fwrite (outPath @ ''.pending'') bytes]"
    and r4: "rename_ok env \<longrightarrow>
              files s4 = ((files s3)(outPath @ ''.pending'' := None))
                           (outPath \<mapsto> file_takes (room env) bytes)"
    by auto
  have staged: "textures (CopyResource (next_tex (d3d s)) f
      (snd (CreateTexture2D True wd ht (d3d s)))) (next_tex (d3d s)) = Some f"
    using assms(3,4) dims
    by (simp add: CreateTexture2D_def CopyResource_def texture_eq)
  have "save_staging_to_file env t outPath s =
      Inr ([Gpu_CreateTexture2D wd ht, Gpu_CopyResource, Gpu_Map] @
           (if loggedProbe s then [] else probe (sv_log_ok env) wd ht) @ e4, s4)"
    using assms(1,3,4,5,6) dims staged w4 copy_rows_Map_rows[OF assms(2)]
    by (simp add: save_staging_to_file_def CreateTexture2D_def Let_def s3_def)
  with wn f4 r4 show ?thesis by (simp add: fwrite_effect_def s3_def)
qed

lemma saver_tick_saves:
  assumes "running s" and "saverRun s" and "holds_frame f s" and "wf_frame wd ht f"
    and "valid_dim wd" and "valid_dim ht"
    and "staging_ok (save env)" and "map_ok (save env)" and "fopen_ok (save env)"
  shows "\<exists>es s' bytes.
           saver_tick baseDir env s = Inr (Saved, es, s') \<and>
           BmpWriter_write True None (tex_pixels f) (sint wd) (sint ht) =
             Inr (Some \<lparr>to_fwrite = bytes, on_disk = bytes\<rparr>) \<and>
           filter fwrite_effect es =
             [File_fwrite (path_append baseDir (frame_name (now env) (saveIdx s)) @ ''.pending'')
                bytes] \<and>
           (rename_ok (save env) \<longrightarrow>
              files s' =
                ((files s)(path_append baseDir (frame_name (now env) (saveIdx s)) @ ''.pending''
                    := None))
                (path_append baseDir (frame_name (now env) (saveIdx s)) \<mapsto>
                   file_takes (room (save env)) bytes))"
proof -
  from assms(3) obtain t where t: "sf_tex (shared s) = Some t" "textures (d3d s) t = Some f"
    by (auto simp: holds_frame_def split: option.splits)
  let ?s1 = "s\<lparr>saveIdx := int_incr (saveIdx s)\<rparr>"
  let ?out = "path_append baseDir (frame_name (now env) (saveIdx s))"
  have "textures (d3d ?s1) t = Some f" using t by simp
  from save_staging_to_file_saves[OF this assms(4,5,6,7,8,9), of ?out]
  obtain e1 s2 bytes where "save_staging_to_file (save env) t ?out ?s1 = Inr (e1, s2)"
    "BmpWriter_write True None (tex_pixels f) (sint wd) (sint ht) =
       Inr (Some \<lparr>to_fwrite = bytes, on_disk = bytes\<rparr>)"
    "filter fwrite_effect e1 = [File_fwrite (?out @ ''.pending'') bytes]"
    "rename_ok (save env) \<longrightarrow> files s2 =
       ((files ?s1)(?out @ ''.pending'' := None))(?out \<mapsto> file_takes (room (save env)) bytes)"
    by blast
  with assms(1,2) t show ?thesis
    by (simp add: saver_tick_def snapshot_def Let_def logf_def fwrite_effect_def)
qed

lemma demo_frame_name: "frame_name demo_clock 0 = ''2024-01-31T23-59-07.042Z_00000.bmp''"
  by code_simp

text \<open>
  C1. Let a non-empty sequence of frames of the same dimensions be delivered to the
  callback of a running session, each invocation completing its update, and let the saver
  then tick once, with a save that can create and map its staging texture and open its
  file. Then the snapshot after the frames is the texture that holds the last delivered
  frame, and the run passes the content of exactly one file to \<^verbatim>\<open>fwrite\<close>: the BMP
  encoding of the pixels of that last frame, for the temporary path of the file name of
  this tick; when the rename succeeds, the directory has under the final name what the
  file took of this content, which is all of it when no write fails, and nothing under the
  temporary name.
\<close>

theorem latest_frame_saved:
  assumes "envs \<noteq> []"
    and "\<forall>env \<in> set envs. completes env \<and> (\<exists>f. next_frame env = Some f \<and> wf_frame wd ht f)"
    and "valid_dim wd" and "valid_dim ht"
    and "next_frame (last envs) = Some latest"
    and "running s" and "saverRun s" and "shared_inv s"
    and "staging_ok (save tenv)" and "map_ok (save tenv)" and "fopen_ok (save tenv)"
  shows "\<exists>e1 s1 t es s' bytes.
           run baseDir (map Frame envs) s = Inr (e1, s1) \<and>
           snapshot s1 = Some (t, wd, ht) \<and> textures (d3d s1) t = Some latest \<and>
           run baseDir (map Frame envs @ [Tick tenv]) s = Inr (es, s') \<and>
           BmpWriter_write True None (tex_pixels latest) (sint wd) (sint ht) =
             Inr (Some \<lparr>to_fwrite = bytes, on_disk = bytes\<rparr>) \<and>
           filter fwrite_effect es =
             [File_fwrite (path_append baseDir (frame_name (now tenv) (saveIdx s)) @ ''.pending'')
                bytes] \<and>
           (rename_ok (save tenv) \<longrightarrow>
              files s' =
                ((files s)(path_append baseDir (frame_name (now tenv) (saveIdx s)) @ ''.pending''
                    := None))
                (path_append baseDir (frame_name (now tenv) (saveIdx s)) \<mapsto>
                   file_takes (room (save tenv)) bytes)) \<and>
           (rename_ok (save tenv) \<and> room (save tenv) = None \<longrightarrow>
              files s' =
                ((files s)(path_append baseDir (frame_name (now tenv) (saveIdx s)) @ ''.pending''
                    := None))
                (path_append baseDir (frame_name (now tenv) (saveIdx s)) \<mapsto> bytes))"
proof -
  from run_frames[OF assms(1,2,3,4,5,6,8), of baseDir] obtain e1 s1 where
    r1: "run baseDir (map Frame envs) s = Inr (e1, s1)" and h1: "holds_frame latest s1"
    and k1: "running s1" "saverRun s1 = saverRun s" "saveIdx s1 = saveIdx s" "files s1 = files s"
    and n1: "filter file_effect e1 = []"
    by blast
  from assms(2) last_in_set[OF assms(1)] obtain f where
    "next_frame (last envs) = Some f" "wf_frame wd ht f" by blast
  with assms(5) have wf: "wf_frame wd ht latest" by simp
  from h1 wf obtain t where t: "snapshot s1 = Some (t, wd, ht)" "textures (d3d s1) t = Some latest"
    by (auto simp: holds_frame_def snapshot_def wf_frame_def split: option.splits)
  from k1 assms(7) have sr: "saverRun s1" by simp
  from saver_tick_saves[OF k1(1) sr h1 wf assms(3,4,9,10,11), of baseDir]
  obtain e2 s2 bytes where
    tk: "saver_tick baseDir tenv s1 = Inr (Saved, e2, s2)"
    and wr: "BmpWriter_write True None (tex_pixels latest) (sint wd) (sint ht) =
               Inr (Some \<lparr>to_fwrite = bytes, on_disk = bytes\<rparr>)"
    and fw: "filter fwrite_effect e2 =
             [File_fwrite (path_append baseDir (frame_name (now tenv) (saveIdx s1)) @ ''.pending'')
                bytes]"
    and fs: "rename_ok (save tenv) \<longrightarrow>
              files s2 =
                ((files s1)(path_append baseDir (frame_name (now tenv) (saveIdx s1)) @ ''.pending''
                    := None))
                (path_append baseDir (frame_name (now tenv) (saveIdx s1)) \<mapsto>
                   file_takes (room (save tenv)) bytes)"
    by blast
  have "filter fwrite_effect e1 = []"
  proof -
    have "fwrite_effect e \<Longrightarrow> file_effect e" for e
      by (cases e) (simp_all add: fwrite_effect_def file_effect_def)
    with n1 show ?thesis by (auto simp: filter_empty_conv)
  qed
  with r1 tk fw have "run baseDir (map Frame envs @ [Tick tenv]) s = Inr (e1 @ e2, s2) \<and>
      filter fwrite_effect (e1 @ e2) =
        [File_fwrite (path_append baseDir (frame_name (now tenv) (saveIdx s)) @ ''.pending'') bytes]"
    by (simp add: run_append k1)
  with r1 t wr fs k1 show ?thesis by auto
qed

theorem latest_frame_saved_witness:
  "(\<exists>es s'. run ''frames''
       (map Frame [demo_frame_env (Some (demo_frame 1)), demo_frame_env (Some (demo_frame 7))] @
        [Tick (demo_tick_env 1000)]) demo_session = Inr (es, s') \<and>
      filter fwrite_effect es =
        [File_fwrite (path_append ''frames'' ''2024-01-31T23-59-07.042Z_00000.bmp'' @ ''.pending'')
           demo_bmp] \<and>
      files s' (path_append ''frames'' ''2024-01-31T23-59-07.042Z_00000.bmp'') = Some demo_bmp)"
proof -
  let ?envs = "[demo_frame_env (Some (demo_frame 1)), demo_frame_env (Some (demo_frame 7))]"
  have a: "?envs \<noteq> []" by simp
  have b: "\<forall>env \<in> set ?envs. completes env \<and> (\<exists>f. next_frame env = Some f \<and> wf_frame 2 1 f)"
    by (simp add: completes_def demo_frame_env_def wf_frame_def demo_frame_def)
  have v: "valid_dim 2" "valid_dim 1"
    by (simp_all add: valid_dim_def D3D11_REQ_TEXTURE2D_U_OR_V_DIMENSION_def)
  have l: "next_frame (last ?envs) = Some (demo_frame 7)" by (simp add: demo_frame_env_def)
  have s: "running demo_session" "saverRun demo_session" "shared_inv demo_session"
    "saveIdx demo_session = 0" "files demo_session = Map.empty"
    by (simp_all add: demo_session_def session_start_def shared_inv_def)
  have t: "staging_ok (save (demo_tick_env 1000))" "map_ok (save (demo_tick_env 1000))"
    "fopen_ok (save (demo_tick_env 1000))" "rename_ok (save (demo_tick_env 1000))"
    "room (save (demo_tick_env 1000)) = None"
    "now (demo_tick_env 1000) = demo_clock"
    by (simp_all add: demo_tick_env_def demo_save_env_def)
  from latest_frame_saved [OF a b v l s(1,2,3) t(1,2,3), of "''frames''"]
  show ?thesis
    using demo_bmp_written by (auto simp: s t demo_frame_name)
qed

subsection \<open>File names\<close>

declare digits.simps [simp del]

lemma append_less_same_length:
  "length a = length b \<Longrightarrow> (a @ x < b @ y \<longleftrightarrow> a < b \<or> (a = b \<and> x < y))"
  by (induction a b rule: list_induct2) auto

lemma length_pad_digits [simp]: "length (pad_digits k n) = k"
  by (induction k arbitrary: n) simp_all

lemma digit_char_less: "a < b \<Longrightarrow> b < 10 \<Longrightarrow> digit_char a < digit_char b"
  by (simp add: digit_char_def less_char_def)

lemma digit_char_0: "digit_char 0 = CHR ''0''"
  by code_simp

lemma pad_digits_0: "pad_digits k 0 = replicate k CHR ''0''"
  by (induction k) (simp_all add: digit_char_0 replicate_append_same)

lemma pad_digits_less:
  "a < b \<Longrightarrow> b < 10 ^ k \<Longrightarrow> pad_digits k a < pad_digits k b"
proof (induction k arbitrary: a b)
  case 0
  then show ?case by simp
next
  case (Suc k)
  from Suc.prems have bk: "b div 10 < 10 ^ k" by (simp add: less_mult_imp_div_less mult.commute)
  from Suc.prems(1) have "a div 10 \<le> b div 10" by (simp add: div_le_mono)
  moreover have "a = 10 * (a div 10) + a mod 10" "b = 10 * (b div 10) + b mod 10" by simp_all
  ultimately consider "a div 10 < b div 10" | "a div 10 = b div 10" "a mod 10 < b mod 10"
    using Suc.prems(1) by linarith
  then show ?case
  proof cases
    case 1
    from Suc.IH[OF 1 bk] show ?thesis by (simp add: append_less_same_length)
  next
    case 2
    then show ?thesis by (simp add: append_less_same_length digit_char_less)
  qed
qed

lemma digits_pad:
  "0 < k \<Longrightarrow> n < 10 ^ k \<Longrightarrow>
   length (digits n) \<le> k \<and> replicate (k - length (digits n)) CHR ''0'' @ digits n = pad_digits k n"
proof (induction k arbitrary: n)
  case 0
  then show ?case by simp
next
  case (Suc k)
  show ?case
  proof (cases "n < 10")
    case True
    then show ?thesis
      by (simp add: digits.simps[of n] pad_digits_0)
  next
    case False
    with Suc.prems have k: "0 < k" by (cases k) simp_all
    from Suc.prems have "n div 10 < 10 ^ k" by (simp add: less_mult_imp_div_less mult.commute)
    from Suc.IH[OF k this] False show ?thesis
      by (simp add: digits.simps[of n] Suc_diff_le)
  qed
qed

lemma fmt_0d_pad:
  "0 < k \<Longrightarrow> 0 \<le> v \<Longrightarrow> v < 10 ^ k \<Longrightarrow> fmt_0d k v = pad_digits k (nat v)"
proof -
  assume a: "0 < k" "0 \<le> v" "v < 10 ^ k"
  then have "nat v < 10 ^ k" by (simp add: nat_less_iff)
  from digits_pad[OF a(1) this] a(2) show ?thesis by (simp add: fmt_0d_def)
qed

lemma block_less:
  "a \<le> b \<Longrightarrow> b < 10 ^ k \<Longrightarrow> (a = b \<Longrightarrow> x < y) \<Longrightarrow> pad_digits k a @ x < pad_digits k b @ y"
  by (cases "a = b") (auto simp: append_less_same_length intro: pad_digits_less)

lemma frame_name_pad:
  assumes "clock_ok c" and "0 \<le> i" and "i < 100000"
  shows "frame_name c i =
     pad_digits 4 (nat (tm_year c + 1900)) @ ''-'' @ pad_digits 2 (nat (tm_mon c + 1)) @ ''-'' @
     pad_digits 2 (nat (tm_mday c)) @ ''T'' @ pad_digits 2 (nat (tm_hour c)) @ ''-'' @
     pad_digits 2 (nat (tm_min c)) @ ''-'' @ pad_digits 2 (nat (tm_sec c)) @ ''.'' @
     pad_digits 3 (nat (msPart c)) @ ''Z_'' @ pad_digits 5 (nat i) @ ''.bmp''"
proof -
  have p: "0 \<le> v \<Longrightarrow> v < 10000 \<Longrightarrow> fmt_0d 4 v = pad_digits 4 (nat v)"
    "0 \<le> v \<Longrightarrow> v < 100 \<Longrightarrow> fmt_0d 2 v = pad_digits 2 (nat v)"
    "0 \<le> v \<Longrightarrow> v < 1000 \<Longrightarrow> fmt_0d 3 v = pad_digits 3 (nat v)"
    "0 \<le> v \<Longrightarrow> v < 100000 \<Longrightarrow> fmt_0d 5 v = pad_digits 5 (nat v)" for v
    using fmt_0d_pad[of 4 v] fmt_0d_pad[of 2 v] fmt_0d_pad[of 3 v] fmt_0d_pad[of 5 v]
    by simp_all
  from assms show ?thesis
    by (simp add: frame_name_def clock_ok_def p)
qed

lemma same_prefix_less: "x < y \<Longrightarrow> sep @ x < sep @ (y :: string)"
  by (induction sep) simp_all

lemma step_less:
  "a \<le> b \<Longrightarrow> b < 10 ^ k \<Longrightarrow> (a = b \<Longrightarrow> x < y) \<Longrightarrow>
   pad_digits k a @ sep @ x < pad_digits k b @ sep @ y"
  by (rule block_less) (auto intro: same_prefix_less)

lemma frame_name_less:
  assumes "clock_ok c1" and "clock_ok c2" and "clock_le c1 c2"
    and "0 \<le> i1" and "i1 < i2" and "i2 < 100000"
  shows "frame_name c1 i1 < frame_name c2 i2"
proof -
  have i: "nat i1 < nat i2" "nat i2 < 10 ^ 5" using assms(4,5,6) by simp_all
  have l5: "pad_digits 5 (nat i1) @ ''.bmp'' < pad_digits 5 (nat i2) @ ''.bmp''"
    using pad_digits_less[OF i] by (simp add: append_less_same_length)
  have last': "pad_digits 3 (nat (msPart c1)) @ ''Z_'' @ pad_digits 5 (nat i1) @ ''.bmp''
      < pad_digits 3 (nat (msPart c2)) @ ''Z_'' @ pad_digits 5 (nat i2) @ ''.bmp''"
    if "msPart c1 \<le> msPart c2"
    using that assms(1,2) pad_digits_less[OF i]
    by (intro step_less) (auto simp: clock_ok_def append_less_same_length)
  from assms(1,2,3) show ?thesis
    unfolding frame_name_pad[OF assms(1,4) order.strict_trans[OF assms(5,6)]]
      frame_name_pad[OF assms(2) order.trans[OF assms(4) less_imp_le[OF assms(5)]] assms(6)]
    apply (intro step_less last')
    apply (simp_all add: clock_ok_def clock_le_def clock_fields_def)
    apply (auto simp: nat_eq_iff l5)
    done
qed

lemma frame_name_pattern:
  "clock_ok c \<Longrightarrow> 0 \<le> i \<Longrightarrow> i < 100000 \<Longrightarrow> frame_name c i = spec_frame_name c i"
  by (simp add: spec_frame_name_def frame_name_pad)

lemma digit_chars:
  "digit_char 0 = CHR ''0''" "digit_char 1 = CHR ''1''" "digit_char 2 = CHR ''2''"
  "digit_char 3 = CHR ''3''" "digit_char 4 = CHR ''4''" "digit_char 5 = CHR ''5''"
  "digit_char 6 = CHR ''6''" "digit_char 7 = CHR ''7''" "digit_char 8 = CHR ''8''"
  "digit_char 9 = CHR ''9''"
  by code_simp+

lemma of_char_digit: "d < 10 \<Longrightarrow> of_char (digit_char d) = 48 + d"
  by (simp add: digit_char_def)

lemma digit_char_not_underscore: "d < 10 \<Longrightarrow> digit_char d \<noteq> CHR ''_''"
proof
  assume "d < 10" and "digit_char d = CHR ''_''"
  then have "(of_char (CHR ''_'') :: nat) = 48 + d" using of_char_digit[of d] by simp
  with \<open>d < 10\<close> show False by simp
qed

lemma digits_not_underscore: "c \<in> set (digits n) \<Longrightarrow> c \<noteq> CHR ''_''"
proof (induction n rule: digits.induct)
  case (1 n)
  show ?case
  proof (cases "n < 10")
    case True
    with "1.prems" show ?thesis by (simp add: digits.simps[of n] digit_char_not_underscore)
  next
    case False
    have "digit_char (n mod 10) \<noteq> CHR ''_''" by (rule digit_char_not_underscore) simp
    with False "1.prems" "1.IH" show ?thesis
      by (auto simp: digits.simps[of n])
  qed
qed

lemma fmt_0d_not_underscore: "c \<in> set (fmt_0d k v) \<Longrightarrow> c \<noteq> CHR ''_''"
  by (auto simp: fmt_0d_def dest: digits_not_underscore split: if_splits)

lemma dec_val_append: "dec_val (xs @ [c]) = 10 * dec_val xs + (of_char c - 48)"
  by (simp add: dec_val_def)

lemma dec_val_digits: "dec_val (digits n) = n"
proof (induction n rule: digits.induct)
  case (1 n)
  show ?case
  proof (cases "n < 10")
    case True
    then show ?thesis by (simp add: digits.simps[of n] dec_val_def of_char_digit)
  next
    case False
    with "1.IH" show ?thesis
      by (simp add: digits.simps[of n] dec_val_append of_char_digit)
  qed
qed

lemma dec_val_zeros: "dec_val (replicate k CHR ''0'' @ xs) = dec_val xs"
  by (induction k) (simp_all add: dec_val_def)

lemma dec_val_fmt_0d: "0 \<le> v \<Longrightarrow> dec_val (fmt_0d k v) = nat v"
  by (simp add: fmt_0d_def dec_val_zeros dec_val_digits)

lemma split_at_first:
  assumes "c \<notin> set a" and "c \<notin> set a'" and "a @ c # b = a' @ c # b'"
  shows "a = a' \<and> b = b'"
proof -
  have "takeWhile (\<lambda>x. x \<noteq> c) (a @ c # b) = a" "takeWhile (\<lambda>x. x \<noteq> c) (a' @ c # b') = a'"
    using assms(1,2) by (auto simp: takeWhile_tail takeWhile_eq_all_conv)
  with assms(3) have "a = a'" by simp
  with assms(3) show ?thesis by simp
qed

lemma frame_name_seq:
  "\<exists>pre. CHR ''_'' \<notin> set pre \<and> frame_name c i = pre @ CHR ''_'' # fmt_0d 5 i @ ''.bmp''"
proof -
  let ?pre = "fmt_0d 4 (tm_year c + 1900) @ ''-'' @ fmt_0d 2 (tm_mon c + 1) @ ''-'' @
     fmt_0d 2 (tm_mday c) @ ''T'' @ fmt_0d 2 (tm_hour c) @ ''-'' @
     fmt_0d 2 (tm_min c) @ ''-'' @ fmt_0d 2 (tm_sec c) @ ''.'' @
     fmt_0d 3 (msPart c) @ ''Z''"
  have "CHR ''_'' \<notin> set ?pre" using fmt_0d_not_underscore by auto
  moreover have "frame_name c i = ?pre @ CHR ''_'' # fmt_0d 5 i @ ''.bmp''"
    by (simp add: frame_name_def)
  ultimately show ?thesis by blast
qed

lemma frame_name_inj:
  assumes "0 \<le> i1" and "0 \<le> i2" and "frame_name c1 i1 = frame_name c2 i2"
  shows "i1 = i2"
proof -
  from frame_name_seq[of c1 i1] frame_name_seq[of c2 i2] obtain p1 p2 where
    p: "CHR ''_'' \<notin> set p1" "frame_name c1 i1 = p1 @ CHR ''_'' # fmt_0d 5 i1 @ ''.bmp''"
       "CHR ''_'' \<notin> set p2" "frame_name c2 i2 = p2 @ CHR ''_'' # fmt_0d 5 i2 @ ''.bmp''"
    by blast
  from split_at_first[OF p(1,3), of "fmt_0d 5 i1 @ ''.bmp''" "fmt_0d 5 i2 @ ''.bmp''"]
    p(2,4) assms(3)
  have "fmt_0d 5 i1 @ ''.bmp'' = fmt_0d 5 i2 @ ''.bmp''" by simp
  then have "fmt_0d 5 i1 = fmt_0d 5 i2" by simp
  then have "dec_val (fmt_0d 5 i1) = dec_val (fmt_0d 5 i2)" by simp
  with assms(1,2) show ?thesis by (simp add: dec_val_fmt_0d)
qed

lemma frame_path_inj:
  "0 \<le> snd k1 \<Longrightarrow> 0 \<le> snd k2 \<Longrightarrow> frame_path baseDir k1 = frame_path baseDir k2 \<Longrightarrow>
   snd k1 = snd k2"
  by (auto simp: frame_path_def path_append_def dest: frame_name_inj)

lemma frame_path_less:
  assumes "clock_ok c1" and "clock_ok c2" and "clock_le c1 c2"
    and "0 \<le> i1" and "i1 < i2" and "i2 < 100000"
  shows "frame_path baseDir (c1, i1) < frame_path baseDir (c2, i2)"
  using frame_name_less[OF assms]
  by (simp add: frame_path_def path_append_def same_prefix_less)

lemma written_append [simp]: "written (a @ b) = written a @ written b"
  by (simp add: written_def)

lemma written_Nil [simp]: "written [] = []"
  by (simp add: written_def)

lemma written_Cons [simp]:
  "written (e # es) = (case e of File_fwrite p b \<Rightarrow> [p] | _ \<Rightarrow> []) @ written es"
  by (simp add: written_def)

lemma written_log_line [simp]: "written (log_line ok ev) = []"
  by (simp add: log_line_def)

lemma written_probe [simp]: "written (probe ok a b) = []"
  by (simp add: probe_def logf_def)

lemma cb_effect_not_fwrite: "\<not> cb_effect (File_fwrite p b)"
  by (simp add: cb_effect_def claimed_cb_effect_def log_effect_def)

lemma written_cb: "(\<And>e. e \<in> set es \<Longrightarrow> cb_effect e) \<Longrightarrow> written es = []"
proof (induction es)
  case Nil
  then show ?case by simp
next
  case (Cons e es)
  then have "cb_effect e" "written es = []" by simp_all
  then show ?case using cb_effect_not_fwrite by (cases e) auto
qed

lemma FrameArrived_saveIdx:
  "FrameArrived env s = (es, s') \<Longrightarrow> saveIdx s' = saveIdx s"
  by (auto simp: FrameArrived_def update_def Let_def
      split: if_splits option.splits prod.splits)

lemma FrameArrived_written:
  "FrameArrived env s = (es, s') \<Longrightarrow> written es = []"
  using FrameArrived_effects by (intro written_cb) blast

lemma write_and_rename_written:
  "write_and_rename env bgra wd ht outPath s = Inr (es, s') \<Longrightarrow>
   (written es = [] \<or> written es = [outPath @ ''.pending''])"
  by (auto simp: write_and_rename_def Let_def
      split: sum.splits option.splits prod.splits bool.splits)

lemma save_written:
  "save_staging_to_file env t outPath s = Inr (es, s') \<Longrightarrow>
   (written es = [] \<or> written es = [outPath @ ''.pending''])"
  by (auto simp: save_staging_to_file_def Let_def
      split: sum.splits option.splits prod.splits if_splits dest!: write_and_rename_written)

lemma int_incr_no_wrap: "0 \<le> i \<Longrightarrow> i < 2 ^ 31 - 1 \<Longrightarrow> int_incr i = i + 1"
  by (simp add: int_incr_def)

lemma saver_tick_written:
  assumes "saver_tick baseDir env s = Inr (out, es, s')" and "0 \<le> saveIdx s"
    and "saveIdx s < 2 ^ 31 - 1"
  shows "(written es = [] \<and> (saveIdx s' = saveIdx s \<or> saveIdx s' = saveIdx s + 1)) \<or>
         (written es = [frame_path baseDir (now env, saveIdx s) @ ''.pending''] \<and>
          saveIdx s' = saveIdx s + 1)"
proof (cases "saverRun s \<and> running s")
  case False
  with assms(1) show ?thesis
    by (auto simp: saver_tick_def Let_def split: if_splits)
next
  case True
  note run = True
  show ?thesis
  proof (cases "snapshot s")
    case None
    with run assms(1) show ?thesis
      by (auto simp: saver_tick_def Let_def split: if_splits)
  next
    case (Some k)
  then obtain t wd ht where sn: "snapshot s = Some (t, wd, ht)" by (cases k) auto
  let ?out = "path_append baseDir (frame_name (now env) (saveIdx s))"
  from run sn assms(1) obtain e1 where
    sv: "save_staging_to_file (save env) t ?out (s\<lparr>saveIdx := int_incr (saveIdx s)\<rparr>) = Inr (e1, s')"
    and es: "written es = written e1"
    by (auto simp: saver_tick_def Let_def logf_def split: sum.splits prod.splits)
  from save_keeps_shared[OF sv] have "saveIdx s' = saveIdx s + 1"
    using assms(2,3) by (simp add: int_incr_no_wrap)
  with save_written[OF sv] es show ?thesis by (simp add: frame_path_def)
  qed
qed

lemma tick_clocks_Cons [simp]:
  "tick_clocks (Frame fe # evs) = tick_clocks evs"
  "tick_clocks (Tick te # evs) = now te # tick_clocks evs"
  "tick_clocks [] = []"
  by (simp_all add: tick_clocks_def)

lemma run_saved:
  assumes "run baseDir evs s = Inr (es, s')" and "0 \<le> saveIdx s"
    and "saveIdx s + int (length (tick_clocks evs)) < 2 ^ 31"
    and "sorted_wrt Q (tick_clocks evs)"
  shows "\<exists>ks. written es = map (\<lambda>k. frame_path baseDir k @ ''.pending'') ks \<and>
              sorted_wrt (\<lambda>k1 k2. snd k1 < snd k2 \<and> Q (fst k1) (fst k2)) ks \<and>
              (\<forall>k \<in> set ks. saveIdx s \<le> snd k \<and> snd k < saveIdx s' \<and>
                              fst k \<in> set (tick_clocks evs)) \<and>
              saveIdx s \<le> saveIdx s' \<and>
              saveIdx s' \<le> saveIdx s + int (length (tick_clocks evs))"
  using assms
proof (induction evs arbitrary: s es)
  case Nil
  then show ?case by auto
next
  case (Cons ev evs)
  from Cons.prems(1) obtain e1 s1 e2 where
    st: "step baseDir ev s = Inr (e1, s1)" and rn: "run baseDir evs s1 = Inr (e2, s')"
    and es: "es = e1 @ e2"
    by (auto split: sum.splits prod.splits)
  show ?case
  proof (cases ev)
    case (Frame fe)
    with st have fa: "FrameArrived fe s = (e1, s1)" by simp
    note i1 = FrameArrived_saveIdx[OF fa] and w1 = FrameArrived_written[OF fa]
    from Cons.prems Frame i1 have p: "0 \<le> saveIdx s1"
      "saveIdx s1 + int (length (tick_clocks evs)) < 2 ^ 31" "sorted_wrt Q (tick_clocks evs)"
      by simp_all
    from Cons.IH[OF rn p] show ?thesis
      using Frame i1 w1 es by simp
  next
    case (Tick te)
    with st obtain out where tk: "saver_tick baseDir te s = Inr (out, e1, s1)"
      by (auto split: sum.splits)
    from Cons.prems(3) Tick have small: "saveIdx s < 2 ^ 31 - 1" by simp
    note t1 = saver_tick_written[OF tk Cons.prems(2) small]
    from t1 Cons.prems Tick have p: "0 \<le> saveIdx s1"
      "saveIdx s1 + int (length (tick_clocks evs)) < 2 ^ 31" "sorted_wrt Q (tick_clocks evs)"
      by auto
    from Cons.prems(4) Tick have q: "\<forall>c \<in> set (tick_clocks evs). Q (now te) c" by simp
    from Cons.IH[OF rn p] obtain ks where
      ks: "written e2 = map (\<lambda>k. frame_path baseDir k @ ''.pending'') ks"
        "sorted_wrt (\<lambda>k1 k2. snd k1 < snd k2 \<and> Q (fst k1) (fst k2)) ks"
        "\<forall>k \<in> set ks. saveIdx s1 \<le> snd k \<and> snd k < saveIdx s' \<and> fst k \<in> set (tick_clocks evs)"
        "saveIdx s1 \<le> saveIdx s'" "saveIdx s' \<le> saveIdx s1 + int (length (tick_clocks evs))"
      by blast
    from t1 show ?thesis
    proof
      assume a: "written e1 = [] \<and> (saveIdx s1 = saveIdx s \<or> saveIdx s1 = saveIdx s + 1)"
      with ks es Tick show ?thesis
        by (intro exI[of _ ks]) auto
    next
      assume a: "written e1 = [frame_path baseDir (now te, saveIdx s) @ ''.pending''] \<and>
          saveIdx s1 = saveIdx s + 1"
      with ks es Tick q show ?thesis
        by (intro exI[of _ "(now te, saveIdx s) # ks"]) auto
    qed
  qed
qed

lemma sorted_wrt_True: "sorted_wrt (\<lambda>_ _. True) xs"
  by (induction xs) simp_all

lemma sorted_wrt_distinct_map:
  "sorted_wrt R xs \<Longrightarrow> (\<And>x y. x \<in> set xs \<Longrightarrow> y \<in> set xs \<Longrightarrow> R x y \<Longrightarrow> f x \<noteq> f y) \<Longrightarrow>
   distinct (map f xs)"
  by (induction xs) auto

lemma demo_same_ms_run:
  "map_sum id (written \<circ> fst)
     (run ''frames''
        [Frame (demo_frame_env (Some (demo_frame 7))), Tick (tick_at demo_clock),
         Tick (tick_at demo_clock)] demo_session) =
   Inr [path_append ''frames'' ''2024-01-31T23-59-07.042Z_00000.bmp'' @ ''.pending'',
        path_append ''frames'' ''2024-01-31T23-59-07.042Z_00001.bmp'' @ ''.pending'']"
  by code_simp

lemma names_sixth_digit:
  "frame_name demo_clock 99999 = ''2024-01-31T23-59-07.042Z_99999.bmp'' \<and>
   frame_name demo_clock 100000 = ''2024-01-31T23-59-07.042Z_100000.bmp'' \<and>
   \<not> frame_name demo_clock 99999 < frame_name demo_clock 100000"
  using digit_chars(2)
  by (simp add: frame_name_def fmt_0d_def demo_clock_def digits.simps digit_chars)

lemma replicate_4: "replicate 4 x = [x, x, x, x]"
  by (simp add: numeral_eq_Suc)

lemma names_fifth_year_digit:
  "frame_name (demo_clock\<lparr>tm_year := 8099\<rparr>) 0 = ''9999-01-31T23-59-07.042Z_00000.bmp'' \<and>
   frame_name (demo_clock\<lparr>tm_year := 8100\<rparr>) 1 = ''10000-01-31T23-59-07.042Z_00001.bmp'' \<and>
   \<not> frame_name (demo_clock\<lparr>tm_year := 8099\<rparr>) 0 < frame_name (demo_clock\<lparr>tm_year := 8100\<rparr>) 1"
  using digit_chars(2)
  by (simp add: frame_name_def fmt_0d_def demo_clock_def digits.simps digit_chars replicate_4)

lemma int_incr_wraps: "int_incr (2 ^ 31 - 1) = - (2 ^ 31)"
  by (simp add: int_incr_def)

lemma demo_spec_frame_name:
  "spec_frame_name demo_clock 1 = ''2024-01-31T23-59-07.042Z_00001.bmp''"
  by code_simp

text \<open>
  C5, as the code has it. In a session of fewer than \<open>2 ^ 31\<close> ticks, whatever the wall
  clock reads, the files written are those of a list of readings and sequence numbers
  whose sequence numbers strictly increase in the order of saving, and no two paths are
  equal. A name is the one of the pattern, the timestamp in its fixed widths and the
  sequence number in five digits, when the reading fits the widths of the format and the
  sequence number is below 100000. When this holds of all the names and the readings of
  successive ticks do not decrease, the paths are in strictly increasing lexicographic
  order, the order of saving.
\<close>

theorem names_increase:
  assumes "run baseDir evs s = Inr (es, s')" and "saveIdx s = 0"
    and "length (tick_clocks evs) < 2 ^ 31"
  shows "\<exists>ks. written es = map (\<lambda>k. frame_path baseDir k @ ''.pending'') ks \<and>
              sorted_wrt (<) (map snd ks) \<and>
              (\<forall>k \<in> set ks. 0 \<le> snd k \<and> snd k < saveIdx s' \<and>
                 fst k \<in> set (tick_clocks evs)) \<and>
              saveIdx s' \<le> int (length (tick_clocks evs)) \<and>
              distinct (map (frame_path baseDir) ks) \<and>
              (\<forall>k \<in> set ks. clock_ok (fst k) \<and> snd k < 100000 \<longrightarrow>
                 frame_name (fst k) (snd k) = spec_frame_name (fst k) (snd k)) \<and>
              ((\<forall>c \<in> set (tick_clocks evs). clock_ok c) \<and> saveIdx s' \<le> 100000 \<and>
               sorted_wrt clock_le (tick_clocks evs) \<longrightarrow>
                 sorted_wrt (<) (map (frame_path baseDir) ks))"
proof -
  define P where "P \<longleftrightarrow> sorted_wrt clock_le (tick_clocks evs)"
  define Q where "Q c1 c2 \<longleftrightarrow> (P \<longrightarrow> clock_le c1 c2)" for c1 c2
  have z: "0 \<le> saveIdx s" "saveIdx s + int (length (tick_clocks evs)) < 2 ^ 31"
    using assms(2,3) by simp_all
  have T: "sorted_wrt Q (tick_clocks evs)"
  proof (cases P)
    case True
    then show ?thesis unfolding P_def by (rule sorted_wrt_mono_rel[rotated]) (simp add: Q_def)
  next
    case False
    then have "Q = (\<lambda>_ _. True)" by (simp add: Q_def fun_eq_iff)
    then show ?thesis by (simp add: sorted_wrt_True)
  qed
  from run_saved[OF assms(1) z T] obtain ks where
    ks: "written es = map (\<lambda>k. frame_path baseDir k @ ''.pending'') ks"
      "sorted_wrt (\<lambda>k1 k2. snd k1 < snd k2 \<and> Q (fst k1) (fst k2)) ks"
      "\<forall>k \<in> set ks. saveIdx s \<le> snd k \<and> snd k < saveIdx s' \<and> fst k \<in> set (tick_clocks evs)"
      "saveIdx s' \<le> saveIdx s + int (length (tick_clocks evs))"
    by auto
  have rng: "0 \<le> snd k \<and> snd k < saveIdx s' \<and> fst k \<in> set (tick_clocks evs)"
    if "k \<in> set ks" for k
    using that ks(3) assms(2) by fastforce
  from ks(2) have seq: "sorted_wrt (\<lambda>k1 k2. snd k1 < snd k2) ks"
    by (rule sorted_wrt_mono_rel[rotated]) simp
  have a: "sorted_wrt (<) (map snd ks)" using seq by (simp add: sorted_wrt_map)
  have b: "\<forall>k \<in> set ks. 0 \<le> snd k \<and> snd k < saveIdx s' \<and> fst k \<in> set (tick_clocks evs)"
    using rng by blast
  have b': "saveIdx s' \<le> int (length (tick_clocks evs))" using ks(4) assms(2) by simp
  have c: "distinct (map (frame_path baseDir) ks)"
  proof (rule sorted_wrt_distinct_map[OF seq])
    fix x y assume "x \<in> set ks" "y \<in> set ks" "snd x < snd y"
    with rng[of x] rng[of y] frame_path_inj[of x y baseDir]
    show "frame_path baseDir x \<noteq> frame_path baseDir y" by auto
  qed
  have p: "\<forall>k \<in> set ks. clock_ok (fst k) \<and> snd k < 100000 \<longrightarrow>
      frame_name (fst k) (snd k) = spec_frame_name (fst k) (snd k)"
    using rng by (auto intro: frame_name_pattern)
  have d: "sorted_wrt (<) (map (frame_path baseDir) ks)"
    if "\<forall>c \<in> set (tick_clocks evs). clock_ok c" and "saveIdx s' \<le> 100000"
      and "sorted_wrt clock_le (tick_clocks evs)"
  proof -
    from that(3) have P by (simp add: P_def)
    have r: "0 \<le> snd k \<and> snd k < 100000 \<and> clock_ok (fst k)" if "k \<in> set ks" for k
      using rng[OF that] \<open>\<forall>c \<in> set (tick_clocks evs). clock_ok c\<close> \<open>saveIdx s' \<le> 100000\<close>
      by auto
    have "sorted_wrt (\<lambda>k1 k2. frame_path baseDir k1 < frame_path baseDir k2) ks"
      using ks(2)
    proof (rule sorted_wrt_mono_rel[rotated])
      fix x y assume xy: "x \<in> set ks" "y \<in> set ks" "snd x < snd y \<and> Q (fst x) (fst y)"
      with \<open>P\<close> have "clock_le (fst x) (fst y)" by (simp add: Q_def)
      with xy r[of x] r[of y] frame_path_less[of "fst x" "fst y" "snd x" "snd y" baseDir]
      show "frame_path baseDir x < frame_path baseDir y" by simp
    qed
    then show ?thesis by (simp add: sorted_wrt_map)
  qed
  from ks(1) a b b' c p d show ?thesis by blast
qed

theorem names_increase_witness:
  "saveIdx demo_session = 0 \<and>
   length (tick_clocks [Frame (demo_frame_env (Some (demo_frame 7))), Tick (tick_at demo_clock),
         Tick (tick_at demo_clock)]) < 2 ^ 31 \<and>
   clock_ok demo_clock \<and> clock_le demo_clock demo_clock \<and>
   (\<exists>es s' ks.
      run ''frames'' [Frame (demo_frame_env (Some (demo_frame 7))), Tick (tick_at demo_clock),
         Tick (tick_at demo_clock)] demo_session = Inr (es, s') \<and>
      written es = map (\<lambda>k. frame_path ''frames'' k @ ''.pending'') ks \<and> length ks = 2 \<and>
      sorted_wrt (<) (map snd ks) \<and> distinct (map (frame_path ''frames'') ks) \<and>
      (\<forall>k \<in> set ks. frame_name (fst k) (snd k) = spec_frame_name (fst k) (snd k)) \<and>
      sorted_wrt (<) (map (frame_path ''frames'') ks))"
proof -
  let ?evs = "[Frame (demo_frame_env (Some (demo_frame 7))), Tick (tick_at demo_clock),
         Tick (tick_at demo_clock)]"
  from demo_same_ms_run obtain es s' where
    r: "run ''frames'' ?evs demo_session = Inr (es, s')" and w: "length (written es) = 2"
    by (cases "run ''frames'' ?evs demo_session") auto
  have i: "saveIdx demo_session = 0" by (simp add: demo_session_def session_start_def)
  have n: "length (tick_clocks ?evs) < 2 ^ 31" by simp
  have ok: "clock_ok demo_clock" by (simp add: clock_ok_def demo_clock_def)
  have le: "clock_le demo_clock demo_clock" by (simp add: clock_le_def)
  have tc: "set (tick_clocks ?evs) = {demo_clock}" "length (tick_clocks ?evs) = 2"
    by (simp_all add: tick_at_def)
  have c: "\<forall>c \<in> set (tick_clocks ?evs). clock_ok c" using ok by (simp add: tick_at_def)
  have srt: "sorted_wrt clock_le (tick_clocks ?evs)" using le by (simp add: tick_at_def)
  from names_increase [OF r i n] obtain ks where
    ks: "written es = map (\<lambda>k. frame_path ''frames'' k @ ''.pending'') ks"
    "sorted_wrt (<) (map snd ks)" "distinct (map (frame_path ''frames'') ks)"
    "\<forall>k \<in> set ks. 0 \<le> snd k \<and> snd k < saveIdx s' \<and> fst k \<in> set (tick_clocks ?evs)"
    "saveIdx s' \<le> int (length (tick_clocks ?evs))"
    "\<forall>k \<in> set ks. clock_ok (fst k) \<and> snd k < 100000 \<longrightarrow>
       frame_name (fst k) (snd k) = spec_frame_name (fst k) (snd k)"
    "(\<forall>c \<in> set (tick_clocks ?evs). clock_ok c) \<and> saveIdx s' \<le> 100000 \<and>
       sorted_wrt clock_le (tick_clocks ?evs) \<longrightarrow> sorted_wrt (<) (map (frame_path ''frames'') ks)"
    by blast
  from ks(5) tc(2) have small: "saveIdx s' \<le> 100000" by simp
  with ks(7) c srt have s7: "sorted_wrt (<) (map (frame_path ''frames'') ks)" by blast
  have pat: "\<forall>k \<in> set ks. frame_name (fst k) (snd k) = spec_frame_name (fst k) (snd k)"
  proof
    fix k assume k: "k \<in> set ks"
    with ks(4) tc(1) ok small have "clock_ok (fst k) \<and> snd k < 100000" by fastforce
    with ks(6) k show "frame_name (fst k) (snd k) = spec_frame_name (fst k) (snd k)" by blast
  qed
  from ks(1) w have "length ks = 2" by simp
  with r ks(1,2,3) pat s7 have "\<exists>es s' ks.
      run ''frames'' ?evs demo_session = Inr (es, s') \<and>
      written es = map (\<lambda>k. frame_path ''frames'' k @ ''.pending'') ks \<and> length ks = 2 \<and>
      sorted_wrt (<) (map snd ks) \<and> distinct (map (frame_path ''frames'') ks) \<and>
      (\<forall>k \<in> set ks. frame_name (fst k) (snd k) = spec_frame_name (fst k) (snd k)) \<and>
      sorted_wrt (<) (map (frame_path ''frames'') ks)"
    by blast
  with i n ok le show ?thesis by blast
qed

text \<open>
  C5 as stated fails: when the wall clock is set back by a second between two ticks of a
  session, the second file is saved under a name that sorts before the name of the first.
\<close>

theorem names_clock_back_counterexample:
  "map_sum id (written \<circ> fst)
     (run ''frames''
        [Frame (demo_frame_env (Some (demo_frame 7))), Tick (tick_at demo_clock),
         Tick (tick_at demo_clock_back)] demo_session) =
   Inr [path_append ''frames'' ''2024-01-31T23-59-07.042Z_00000.bmp'' @ ''.pending'',
        path_append ''frames'' ''2024-01-31T23-59-06.042Z_00001.bmp'' @ ''.pending''] \<and>
   \<not> (''2024-01-31T23-59-07.042Z_00000.bmp'' < ''2024-01-31T23-59-06.042Z_00001.bmp'')"
  by code_simp

end
